theory Spec2Isabelle
  imports Complex_Main "HOL-Library.AList"
begin

section \<open>Values, errors and effects\<close>

text \<open>
  The service is Python glue around the Brightway libraries. Python floats are modelled as
  \<^typ>\<open>real\<close> (exact arithmetic), Python dicts as association lists in insertion order
  whose assignment \<open>d[k] = v\<close> is \<^const>\<open>AList.update\<close> (an existing key keeps its
  position, a new key goes to the end). Values whose shape the code inspects at run time
  (the elements of the method list) are dynamically typed.
\<close>

datatype pyval = PStr string | PInt int | PTuple "pyval list"

datatype error =
    ValueError string
  | AssertionError string
  | IndexError
  | KeyError
  | TypeError
  | UnknownObject
  | ValidationError
  | HTTPException nat string

text \<open>
  Every call into a collaborator (the project store, the database, the LCA object) and
  every matrix product is recorded as an event, in program order.
\<close>

type_synonym key = "string \<times> string"
type_synonym mat = "real list list"

datatype event =
    SetCurrent string
  | DbGet string string
  | GetActivity key
  | NewLCA "(key \<times> real) list" pyval
  | Lci "(int \<times> real) list option"
  | SwitchMethod pyval
  | CopyMatrix pyval
  | Characterize pyval

type_synonym 'a run = "(error + 'a) \<times> event list"

definition succeed :: "'a \<Rightarrow> 'a run" where
  "succeed x = (Inr x, [])"

definition failure :: "error \<Rightarrow> 'a run" where
  "failure e = (Inl e, [])"

definition lift :: "error + 'a \<Rightarrow> 'a run" where
  "lift r = (r, [])"

definition emit :: "event \<Rightarrow> error + 'a \<Rightarrow> 'a run" where
  "emit ev r = (r, [ev])"

definition and_then :: "'a run \<Rightarrow> ('a \<Rightarrow> 'b run) \<Rightarrow> 'b run" where
  "and_then m f =
     (case m of
        (Inl e, evs) \<Rightarrow> (Inl e, evs)
      | (Inr x, evs) \<Rightarrow> (case f x of (r, evs') \<Rightarrow> (r, evs @ evs')))"

section \<open>Dense matrices\<close>

text \<open>
  \<open>(C * inventory).sum()\<close>: the product of two matrices, then the sum of all entries of
  the product. Matrices are lists of rows. The product fails on a dimension mismatch.
\<close>

definition n_cols :: "mat \<Rightarrow> nat" where
  "n_cols M = (case M of [] \<Rightarrow> 0 | r # _ \<Rightarrow> length r)"

fun row_times :: "nat \<Rightarrow> real list \<Rightarrow> mat \<Rightarrow> real list" where
  "row_times n (c # cs) (g # gs) = map2 (+) (map ((*) c) g) (row_times n cs gs)"
| "row_times n _ _ = replicate n 0"

definition mat_mul :: "mat \<Rightarrow> mat \<Rightarrow> error + mat" where
  "mat_mul C G =
     (if list_all (\<lambda>row. length row = length G) C \<and> list_all (\<lambda>row. length row = n_cols G) G
      then Inr (map (\<lambda>row. row_times (n_cols G) row G) C)
      else Inl (ValueError ''dimension mismatch''))"

definition mat_sum :: "mat \<Rightarrow> real" where
  "mat_sum M = sum_list (map sum_list M)"

definition scale_mat :: "real \<Rightarrow> mat \<Rightarrow> mat" where
  "scale_mat k M = map (map ((*) k)) M"

section \<open>The data the libraries hold\<close>

record activity =
  act_id :: int
  act_str :: string

text \<open>
  One Brightway project: its databases, its activities by key \<open>(database, code)\<close>, its
  registry of impact-assessment methods (each key a tuple of strings, with the
  characterization matrix the library builds for it) and the library's inventory
  calculation. \<open>lci_first d\<close> is \<open>lca.lci()\<close> on the LCA object that was built for
  \<open>d\<close>; \<open>lci_redo d f\<close> is \<open>lca.lci(f)\<close> on that object. The solver is the library's,
  so both are parameters. So is what the library raises: \<open>lca_init d m\<close> is the
  exception of the constructor \<open>bc.LCA(demand=d, method=m)\<close>, if it raises one (it does
  for an unknown activity, an unregistered method and an empty demand), and
  \<open>method_failure m\<close> is the exception of \<open>lca.switch_method(m)\<close> for a method it cannot
  load (a \<open>TypeError\<close> for a value that is no tuple, a \<open>ValueError\<close> for a tuple that is
  not registered).
\<close>

record project =
  databases :: "string list"
  activities :: "(key \<times> activity) list"
  methods :: "(string list \<times> mat) list"
  lci_first :: "(key \<times> real) list \<Rightarrow> error + mat"
  lci_redo :: "(key \<times> real) list \<Rightarrow> (int \<times> real) list \<Rightarrow> error + mat"
  lca_init :: "(key \<times> real) list \<Rightarrow> pyval \<Rightarrow> error option"
  method_failure :: "pyval \<Rightarrow> error"

record lca =
  lca_demand :: "(key \<times> real) list"
  lca_method :: pyval
  inventory :: mat
  characterization_matrix :: mat

text \<open>
  The LCA object. Its constructor raises what the library raises, and otherwise records
  the demand and the method. \<open>inventory\<close> and \<open>characterization_matrix\<close> are read only
  after a call that sets them.
\<close>

definition new_LCA :: "project \<Rightarrow> (key \<times> real) list \<Rightarrow> pyval \<Rightarrow> lca run" where
  "new_LCA p d m =
     emit (NewLCA d m)
       (case lca_init p d m of
          Some e \<Rightarrow> Inl e
        | None \<Rightarrow>
            Inr \<lparr>lca_demand = d, lca_method = m, inventory = [], characterization_matrix = []\<rparr>)"

definition lci0 :: "project \<Rightarrow> lca \<Rightarrow> lca run" where
  "lci0 p l =
     emit (Lci None)
       (case lci_first p (lca_demand l) of
          Inl e \<Rightarrow> Inl e
        | Inr g \<Rightarrow> Inr (l\<lparr>inventory := g\<rparr>))"

definition lci :: "project \<Rightarrow> lca \<Rightarrow> (int \<times> real) list \<Rightarrow> lca run" where
  "lci p l f =
     emit (Lci (Some f))
       (case lci_redo p (lca_demand l) f of
          Inl e \<Rightarrow> Inl e
        | Inr g \<Rightarrow> Inr (l\<lparr>inventory := g\<rparr>))"

fun str_of :: "pyval \<Rightarrow> string option" where
  "str_of (PStr s) = Some s"
| "str_of _ = None"

fun strs_of :: "pyval list \<Rightarrow> string list option" where
  "strs_of [] = Some []"
| "strs_of (x # xs) =
     (case str_of x of
        None \<Rightarrow> None
      | Some s \<Rightarrow> (case strs_of xs of None \<Rightarrow> None | Some ss \<Rightarrow> Some (s # ss)))"

definition method_key :: "pyval \<Rightarrow> string list option" where
  "method_key m = (case m of PTuple xs \<Rightarrow> strs_of xs | _ \<Rightarrow> None)"

definition load_lcia_data :: "project \<Rightarrow> pyval \<Rightarrow> mat option" where
  "load_lcia_data p m =
     (case method_key m of None \<Rightarrow> None | Some ss \<Rightarrow> map_of (methods p) ss)"

definition switch_method :: "project \<Rightarrow> lca \<Rightarrow> pyval \<Rightarrow> lca run" where
  "switch_method p l m =
     emit (SwitchMethod m)
       (case load_lcia_data p m of
          None \<Rightarrow> Inl (method_failure p m)
        | Some C \<Rightarrow> Inr (l\<lparr>lca_method := m, characterization_matrix := C\<rparr>))"

definition get_activity :: "project \<Rightarrow> key \<Rightarrow> activity run" where
  "get_activity p k =
     emit (GetActivity k)
       (case map_of (activities p) k of None \<Rightarrow> Inl UnknownObject | Some a \<Rightarrow> Inr a)"

section \<open>utils.py: convert_results_format\<close>

fun join :: "string \<Rightarrow> string list \<Rightarrow> string" where
  "join sep [] = []"
| "join sep [x] = x"
| "join sep (x # y # ys) = x @ sep @ join sep (y # ys)"

text \<open>
  \<open>" | ".join(key)\<close> iterates its argument: a tuple must hold strings only, a string is
  joined character by character, anything else is a \<open>TypeError\<close>.
\<close>

definition join_key :: "pyval \<Rightarrow> error + string" where
  "join_key k =
     (case k of
        PTuple xs \<Rightarrow> (case strs_of xs of None \<Rightarrow> Inl TypeError | Some ss \<Rightarrow> Inr (join '' | '' ss))
      | PStr s \<Rightarrow> Inr (join '' | '' (map (\<lambda>c. [c]) s))
      | PInt _ \<Rightarrow> Inl TypeError)"

fun convert_inner ::
  "(pyval \<times> 'v) list \<Rightarrow> (string \<times> 'v) list \<Rightarrow> error + (string \<times> 'v) list" where
  "convert_inner [] acc = Inr acc"
| "convert_inner ((k, v) # kvs) acc =
     (case join_key k of
        Inl e \<Rightarrow> Inl e
      | Inr s \<Rightarrow> convert_inner kvs (AList.update s v acc))"

fun convert_outer ::
  "(string \<times> (pyval \<times> 'v) list) list \<Rightarrow> (string \<times> (string \<times> 'v) list) list
     \<Rightarrow> error + (string \<times> (string \<times> 'v) list) list" where
  "convert_outer [] acc = Inr acc"
| "convert_outer ((outer_key, inner_dict) # rest) acc =
     (case convert_inner inner_dict [] of
        Inl e \<Rightarrow> Inl e
      | Inr converted_inner_dict \<Rightarrow>
          convert_outer rest (AList.update outer_key converted_inner_dict acc))"

definition convert_results_format ::
  "(string \<times> (pyval \<times> 'v) list) list \<Rightarrow> error + (string \<times> (string \<times> 'v) list) list" where
  "convert_results_format results = convert_outer results []"

section \<open>main.py: staticLCA\<close>

record LCAInput =
  demands :: "(key \<times> real) list list"
  impact_categories :: "pyval list"

text \<open>
  The assertion on the method list. The list is not empty here. \<open>methods\<close> is a list by
  its type, so the first conjunct holds; \<open>methods[0][0]\<close> on an empty tuple raises
  \<open>IndexError\<close> before the assertion is decided.
\<close>

definition check_methods :: "pyval list \<Rightarrow> unit run" where
  "check_methods ms =
     (case ms ! 0 of
        PTuple [] \<Rightarrow> failure IndexError
      | PTuple (PStr _ # _) \<Rightarrow> succeed ()
      | _ \<Rightarrow> failure (AssertionError ''Methods must be a list of tuples of strings''))"

definition all_demands_of :: "(key \<times> real) list list \<Rightarrow> (key \<times> real) list" where
  "all_demands_of ds = fold (\<lambda>k acc. AList.update k 1 acc) (concat (map (map fst) ds)) []"

fun build_C_matrices ::
  "project \<Rightarrow> pyval list \<Rightarrow> lca \<Rightarrow> (pyval \<times> mat) list \<Rightarrow> (lca \<times> (pyval \<times> mat) list) run" where
  "build_C_matrices p [] l Cs = succeed (l, Cs)"
| "build_C_matrices p (m # ms) l Cs =
     and_then (switch_method p l m) (\<lambda>l'.
     and_then (emit (CopyMatrix m) (Inr (AList.update m (characterization_matrix l') Cs))) (\<lambda>Cs'.
       build_C_matrices p ms l' Cs'))"

definition init_row :: "pyval list \<Rightarrow> (pyval \<times> real option) list" where
  "init_row ms = fold (\<lambda>m row. AList.update m None row) ms []"

definition first_key :: "(key \<times> real) list \<Rightarrow> key run" where
  "first_key d = (case d of [] \<Rightarrow> failure IndexError | (k, _) # _ \<Rightarrow> succeed k)"

definition int_demand_of :: "activity \<Rightarrow> (key \<times> real) list \<Rightarrow> (int \<times> real) list" where
  "int_demand_of act d = fold (\<lambda>(_, v) acc. AList.update (act_id act) v acc) d []"

definition characterize :: "(pyval \<times> mat) list \<Rightarrow> pyval \<Rightarrow> mat \<Rightarrow> real run" where
  "characterize Cs m g =
     emit (Characterize m)
       (case map_of Cs m of
          None \<Rightarrow> Inl KeyError
        | Some C \<Rightarrow> (case mat_mul C g of Inl e \<Rightarrow> Inl e | Inr M \<Rightarrow> Inr (mat_sum M)))"

fun score_methods ::
  "project \<Rightarrow> (pyval \<times> mat) list \<Rightarrow> pyval list \<Rightarrow> lca \<Rightarrow> (pyval \<times> real option) list
     \<Rightarrow> (lca \<times> (pyval \<times> real option) list) run" where
  "score_methods p Cs [] l row = succeed (l, row)"
| "score_methods p Cs (m # ms) l row =
     and_then (switch_method p l m) (\<lambda>l'.
     and_then (characterize Cs m (inventory l')) (\<lambda>s.
       score_methods p Cs ms l' (AList.update m (Some s) row)))"

text \<open>
  The loop over the demands. \<open>results[str(act)]\<close> is first set to the row of \<open>None\<close>s
  and then filled in place; a failure in between discards \<open>results\<close>, so both
  assignments are applied when the row is complete. The \<open>print\<close> of the results before
  the conversion writes to the console only and is left out.
\<close>

fun eval_demands ::
  "project \<Rightarrow> pyval list \<Rightarrow> (pyval \<times> mat) list \<Rightarrow> (key \<times> real) list list \<Rightarrow> lca
     \<Rightarrow> (string \<times> (pyval \<times> real option) list) list
     \<Rightarrow> (string \<times> (pyval \<times> real option) list) list run" where
  "eval_demands p ms Cs [] l results = succeed results"
| "eval_demands p ms Cs (demand # rest) l results =
     and_then (first_key demand) (\<lambda>k.
     and_then (get_activity p k) (\<lambda>act.
     and_then (lci p l (int_demand_of act demand)) (\<lambda>l1.
     and_then (score_methods p Cs ms l1 (init_row ms)) (\<lambda>(l2, row).
       eval_demands p ms Cs rest l2
         (AList.update (act_str act) row
            (AList.update (act_str act) (init_row ms) results))))))"

definition staticLCA ::
  "project \<Rightarrow> LCAInput \<Rightarrow> (string \<times> (string \<times> real option) list) list run" where
  "staticLCA p inputs =
     (let ms = impact_categories inputs; ds = demands inputs in
      if length ms = 0
      then failure (ValueError ''No methods were specified. Please specify at least one method to perform LCA calculations'')
      else
        and_then (check_methods ms) (\<lambda>_.
        and_then (new_LCA p (all_demands_of ds) (ms ! 0)) (\<lambda>l.
        and_then (lci0 p l) (\<lambda>l.
        and_then (build_C_matrices p ms l []) (\<lambda>(l, Cs).
        and_then (eval_demands p ms Cs ds l []) (\<lambda>results.
          lift (convert_results_format results)))))))"

section \<open>main.py: run_lca\<close>

record LCARequest =
  req_demands :: "(string \<times> real) list list"
  req_impact_categories :: "string list list option"
  lcia_method :: "string option"

type_synonym world = "(string \<times> project) list"

fun check_activities :: "project \<Rightarrow> string \<Rightarrow> string list \<Rightarrow> unit run" where
  "check_activities p db [] = succeed ()"
| "check_activities p db (k # ks) =
     and_then
       (emit (DbGet db k)
          (case map_of (activities p) (db, k) of
             None \<Rightarrow> Inl (HTTPException 404 (''Activity '' @ k @ '' not found.''))
           | Some _ \<Rightarrow> Inr ()))
       (\<lambda>_. check_activities p db ks)"

definition tuple_of :: "string list \<Rightarrow> pyval" where
  "tuple_of ss = PTuple (map PStr ss)"

text \<open>\<open>[method for method in bd.methods if body.lcia_method == method[0]]\<close>\<close>

fun select_lcia :: "string \<Rightarrow> string list list \<Rightarrow> error + string list list" where
  "select_lcia lm [] = Inr []"
| "select_lcia lm ([] # rest) = Inl IndexError"
| "select_lcia lm ((x # xs) # rest) =
     (case select_lcia lm rest of
        Inl e \<Rightarrow> Inl e
      | Inr sel \<Rightarrow> Inr (if lm = x then (x # xs) # sel else sel))"

fun check_categories ::
  "string list list \<Rightarrow> string list list \<Rightarrow> string list list \<Rightarrow> error + string list list" where
  "check_categories registry [] acc = Inr acc"
| "check_categories registry (method_list # rest) acc =
     (if method_list \<notin> set registry
      then Inl (HTTPException 404 ''Impact category not found.'')
      else check_categories registry rest (acc @ [method_list]))"

definition select_methods :: "project \<Rightarrow> LCARequest \<Rightarrow> error + string list list" where
  "select_methods p body =
     (case lcia_method body of
        Some (c # cs) \<Rightarrow> select_lcia (c # cs) (map fst (methods p))
      | _ \<Rightarrow>
         (case req_impact_categories body of
            Some (m # ms) \<Rightarrow> check_categories (map fst (methods p)) (m # ms) []
          | _ \<Rightarrow> Inl (HTTPException 400 ''No impact categories provided or lcia method provided.'')))"

text \<open>
  \<open>LCAInput(demands=..., impact_categories=...)\<close> on a method list of any values: the
  model class declares \<open>impact_categories: List[Tuple[str, str, str]]\<close>, so its
  construction fails with the validation error unless every element is a tuple of
  exactly three strings.
\<close>

fun is_method_tuple :: "pyval \<Rightarrow> bool" where
  "is_method_tuple (PTuple [PStr _, PStr _, PStr _]) = True"
| "is_method_tuple _ = False"

definition new_LCAInput :: "(key \<times> real) list list \<Rightarrow> pyval list \<Rightarrow> error + LCAInput" where
  "new_LCAInput ds ms =
     (if list_all is_method_tuple ms
      then Inr \<lparr>demands = ds, impact_categories = ms\<rparr>
      else Inl ValidationError)"

text \<open>
  \<open>LCAInput(demands=..., impact_categories=...)\<close>: the model class declares
  \<open>impact_categories: List[Tuple[str, str, str]]\<close>, so its construction rejects a tuple
  that has not exactly three components.
\<close>

definition make_LCAInput ::
  "(key \<times> real) list list \<Rightarrow> string list list \<Rightarrow> error + LCAInput" where
  "make_LCAInput ds cats =
     (if list_all (\<lambda>m. length m = 3) cats
      then Inr \<lparr>demands = ds, impact_categories = map tuple_of cats\<rparr>
      else Inl ValidationError)"

definition keyed_demands :: "string \<Rightarrow> (string \<times> real) list list \<Rightarrow> (key \<times> real) list list" where
  "keyed_demands database_name ds =
     map (\<lambda>demand. fold (\<lambda>(k, amount) acc. AList.update (database_name, k) amount acc) demand []) ds"

definition run_lca ::
  "world \<Rightarrow> string \<Rightarrow> string \<Rightarrow> LCARequest \<Rightarrow> (string \<times> (string \<times> real option) list) list run" where
  "run_lca w project_name database_name body =
     (case map_of w project_name of
        None \<Rightarrow> failure (HTTPException 404 ''Project not found.'')
      | Some p \<Rightarrow>
          and_then (emit (SetCurrent project_name) (Inr ())) (\<lambda>_.
            if database_name \<notin> set (databases p)
            then failure (HTTPException 404 ''Database not found.'')
            else
              and_then (check_activities p database_name
                          (concat (map (map fst) (req_demands body)))) (\<lambda>_.
              and_then (lift (select_methods p body)) (\<lambda>cats.
              and_then (lift (make_LCAInput (keyed_demands database_name (req_demands body)) cats))
                (\<lambda>inputs. staticLCA p inputs)))))"

section \<open>A concrete project\<close>

text \<open>
  The two-process system of the specification: \<open>P1\<close> needs two units of \<open>P2\<close> per unit,
  \<open>P2\<close> emits five units of the elementary flow per unit; one method weighs the flow by
  3, another by 1. Its solver is written out: for the demand \<open>(f1, f2)\<close> the scaling
  vector is \<open>(f1, 2 f1 + f2)\<close>. Its constructor fails for an empty demand, an unknown
  activity and an unregistered method, and switching to a method it cannot load fails
  with a \<open>TypeError\<close> for a value that is no tuple and a \<open>ValueError\<close> for a tuple. The
  exception classes of the constructor and the text of the \<open>ValueError\<close> belong to the
  library; this project fixes one choice for them, and no theorem below depends on it.
\<close>

definition amount_at :: "('k \<times> real) list \<Rightarrow> 'k \<Rightarrow> real" where
  "amount_at f k = (case map_of f k of None \<Rightarrow> 0 | Some v \<Rightarrow> v)"

definition scenario_inventory :: "real \<Rightarrow> real \<Rightarrow> mat" where
  "scenario_inventory f1 f2 = [[0 * f1, 5 * (2 * f1 + f2)]]"

definition scenario_method_failure :: "pyval \<Rightarrow> error" where
  "scenario_method_failure m =
     (case m of PTuple _ \<Rightarrow> ValueError ''unknown method'' | _ \<Rightarrow> TypeError)"

definition scenario :: project where
  "scenario =
     \<lparr>databases = [''db''],
      activities =
        [((''db'', ''P1''), \<lparr>act_id = 1, act_str = ''P1''\<rparr>),
         ((''db'', ''P2''), \<lparr>act_id = 2, act_str = ''P2''\<rparr>)],
      methods = [([''m'', ''cc'', ''a''], [[3]]), ([''m'', ''cc'', ''b''], [[1]])],
      lci_first = (\<lambda>d.
        if list_all (\<lambda>(k, _). k = (''db'', ''P1'') \<or> k = (''db'', ''P2'')) d
        then Inr (scenario_inventory (amount_at d (''db'', ''P1'')) (amount_at d (''db'', ''P2'')))
        else Inl UnknownObject),
      lci_redo = (\<lambda>d f.
        if list_all (\<lambda>(i, _). i = 1 \<or> i = 2) f
        then Inr (scenario_inventory (amount_at f 1) (amount_at f 2))
        else Inl UnknownObject),
      lca_init = (\<lambda>d m.
        if d = [] then Some TypeError
        else if \<not> list_all (\<lambda>(k, _). k = (''db'', ''P1'') \<or> k = (''db'', ''P2'')) d
        then Some UnknownObject
        else if m = PTuple [PStr ''m'', PStr ''cc'', PStr ''a'']
                \<or> m = PTuple [PStr ''m'', PStr ''cc'', PStr ''b'']
        then None
        else Some (scenario_method_failure m)),
      method_failure = scenario_method_failure\<rparr>"

section \<open>The outcome of staticLCA as a function\<close>

text \<open>
  The same computation without the event log and without the LCA object: what
  \<open>staticLCA\<close> returns depends on the object only through the demand it was built for
  and the inventory of the last calculation. These functions are proved equal to the
  first component of the effectful ones below.
\<close>

fun build_cache :: "project \<Rightarrow> pyval list \<Rightarrow> (pyval \<times> mat) list \<Rightarrow> error + (pyval \<times> mat) list" where
  "build_cache p [] Cs = Inr Cs"
| "build_cache p (m # ms) Cs =
     (case load_lcia_data p m of
        None \<Rightarrow> Inl (method_failure p m)
      | Some C \<Rightarrow> build_cache p ms (AList.update m C Cs))"

definition score_of :: "(pyval \<times> mat) list \<Rightarrow> pyval \<Rightarrow> mat \<Rightarrow> error + real" where
  "score_of Cs m g =
     (case map_of Cs m of
        None \<Rightarrow> Inl KeyError
      | Some C \<Rightarrow> (case mat_mul C g of Inl e \<Rightarrow> Inl e | Inr M \<Rightarrow> Inr (mat_sum M)))"

fun score_rows ::
  "project \<Rightarrow> (pyval \<times> mat) list \<Rightarrow> pyval list \<Rightarrow> mat \<Rightarrow> (pyval \<times> real option) list
     \<Rightarrow> error + (pyval \<times> real option) list" where
  "score_rows p Cs [] g row = Inr row"
| "score_rows p Cs (m # ms) g row =
     (case load_lcia_data p m of
        None \<Rightarrow> Inl (method_failure p m)
      | Some _ \<Rightarrow>
         (case score_of Cs m g of
            Inl e \<Rightarrow> Inl e
          | Inr s \<Rightarrow> score_rows p Cs ms g (AList.update m (Some s) row)))"

fun eval_rows ::
  "project \<Rightarrow> pyval list \<Rightarrow> (pyval \<times> mat) list \<Rightarrow> (key \<times> real) list \<Rightarrow> (key \<times> real) list list
     \<Rightarrow> (string \<times> (pyval \<times> real option) list) list
     \<Rightarrow> error + (string \<times> (pyval \<times> real option) list) list" where
  "eval_rows p ms Cs dm [] results = Inr results"
| "eval_rows p ms Cs dm ([] # rest) results = Inl IndexError"
| "eval_rows p ms Cs dm (((k, v) # kvs) # rest) results =
     (case map_of (activities p) k of
        None \<Rightarrow> Inl UnknownObject
      | Some act \<Rightarrow>
         (case lci_redo p dm (int_demand_of act ((k, v) # kvs)) of
            Inl e \<Rightarrow> Inl e
          | Inr g \<Rightarrow>
             (case score_rows p Cs ms g (init_row ms) of
                Inl e \<Rightarrow> Inl e
              | Inr row \<Rightarrow>
                  eval_rows p ms Cs dm rest
                    (AList.update (act_str act) row
                       (AList.update (act_str act) (init_row ms) results)))))"

definition outcome :: "project \<Rightarrow> LCAInput \<Rightarrow> error + (string \<times> (string \<times> real option) list) list" where
  "outcome p inputs =
     (let ms = impact_categories inputs; ds = demands inputs in
      if ms = [] then Inl (ValueError ''No methods were specified. Please specify at least one method to perform LCA calculations'')
      else
        (case fst (check_methods ms) of
           Inl e \<Rightarrow> Inl e
         | Inr _ \<Rightarrow>
            (case lca_init p (all_demands_of ds) (ms ! 0) of
               Some e \<Rightarrow> Inl e
             | None \<Rightarrow>
                (case lci_first p (all_demands_of ds) of
                   Inl e \<Rightarrow> Inl e
                 | Inr _ \<Rightarrow>
                    (case build_cache p ms [] of
                       Inl e \<Rightarrow> Inl e
                     | Inr Cs \<Rightarrow>
                        (case eval_rows p ms Cs (all_demands_of ds) ds [] of
                           Inl e \<Rightarrow> Inl e
                         | Inr results \<Rightarrow> convert_results_format results))))))"

section \<open>The events of a successful run\<close>

definition method_events :: "pyval list \<Rightarrow> event list" where
  "method_events ms = concat (map (\<lambda>m. [SwitchMethod m, Characterize m]) ms)"

definition cache_events :: "pyval list \<Rightarrow> event list" where
  "cache_events ms = concat (map (\<lambda>m. [SwitchMethod m, CopyMatrix m]) ms)"

definition demand_events :: "project \<Rightarrow> pyval list \<Rightarrow> (key \<times> real) list \<Rightarrow> event list" where
  "demand_events p ms d =
     (case d of
        [] \<Rightarrow> []
      | (k, _) # _ \<Rightarrow>
         (case map_of (activities p) k of
            None \<Rightarrow> [GetActivity k]
          | Some act \<Rightarrow> GetActivity k # Lci (Some (int_demand_of act d)) # method_events ms))"

fun is_NewLCA :: "event \<Rightarrow> bool" where
  "is_NewLCA (NewLCA _ _) = True"
| "is_NewLCA _ = False"

fun is_Lci :: "event \<Rightarrow> bool" where
  "is_Lci (Lci _) = True"
| "is_Lci _ = False"

fun is_SwitchMethod :: "event \<Rightarrow> bool" where
  "is_SwitchMethod (SwitchMethod _) = True"
| "is_SwitchMethod _ = False"

fun is_CopyMatrix :: "event \<Rightarrow> bool" where
  "is_CopyMatrix (CopyMatrix _) = True"
| "is_CopyMatrix _ = False"

fun is_Characterize :: "event \<Rightarrow> bool" where
  "is_Characterize (Characterize _) = True"
| "is_Characterize _ = False"

text \<open>The events that only read the store or make a project current.\<close>

fun is_lookup :: "event \<Rightarrow> bool" where
  "is_lookup (SetCurrent _) = True"
| "is_lookup (DbGet _ _) = True"
| "is_lookup _ = False"

definition count_events :: "(event \<Rightarrow> bool) \<Rightarrow> event list \<Rightarrow> nat" where
  "count_events P evs = length (filter P evs)"

section \<open>Rendering of method keys\<close>

text \<open>The string a method key is rendered as (empty where the join fails).\<close>

definition render :: "pyval \<Rightarrow> string" where
  "render k = (case join_key k of Inl _ \<Rightarrow> [] | Inr s \<Rightarrow> s)"

section \<open>Labels and rows of a result\<close>

text \<open>
  \<open>label_of p d\<close> is \<open>str(act)\<close> for the activity of the first key of the demand \<open>d\<close>;
  \<open>row_of p ms Cs dm d\<close> is the row of scores the loop body computes for \<open>d\<close> on the LCA
  object built for \<open>dm\<close>; \<open>converted\<close> is the inner conversion of
  \<open>convert_results_format\<close>. Each is empty where the run fails.
\<close>

definition label_of :: "project \<Rightarrow> (key \<times> real) list \<Rightarrow> string" where
  "label_of p d =
     (case d of
        [] \<Rightarrow> []
      | (k, _) # _ \<Rightarrow> (case map_of (activities p) k of None \<Rightarrow> [] | Some act \<Rightarrow> act_str act))"

definition row_of ::
  "project \<Rightarrow> pyval list \<Rightarrow> (pyval \<times> mat) list \<Rightarrow> (key \<times> real) list \<Rightarrow> (key \<times> real) list
     \<Rightarrow> (pyval \<times> real option) list" where
  "row_of p ms Cs dm d =
     (case d of
        [] \<Rightarrow> []
      | (k, _) # _ \<Rightarrow>
         (case map_of (activities p) k of
            None \<Rightarrow> []
          | Some act \<Rightarrow>
             (case lci_redo p dm (int_demand_of act d) of
                Inl _ \<Rightarrow> []
              | Inr g \<Rightarrow>
                 (case score_rows p Cs ms g (init_row ms) of Inl _ \<Rightarrow> [] | Inr row \<Rightarrow> row))))"

definition converted :: "(pyval \<times> 'v) list \<Rightarrow> (string \<times> 'v) list" where
  "converted inner = (case convert_inner inner [] of Inl _ \<Rightarrow> [] | Inr c \<Rightarrow> c)"

section \<open>Scaling a demand and a result\<close>

definition scale_demand :: "real \<Rightarrow> (key \<times> real) list \<Rightarrow> (key \<times> real) list" where
  "scale_demand c d = map (\<lambda>(k, v). (k, c * v)) d"

definition scale_row :: "real \<Rightarrow> ('a \<times> real option) list \<Rightarrow> ('a \<times> real option) list" where
  "scale_row c row = map (\<lambda>(m, s). (m, map_option ((*) c) s)) row"

definition scale_results ::
  "real \<Rightarrow> (string \<times> ('a \<times> real option) list) list \<Rightarrow> (string \<times> ('a \<times> real option) list) list" where
  "scale_results c r = map (\<lambda>(label, row). (label, scale_row c row)) r"

section \<open>Sequencing\<close>

lemma fst_and_then:
  "fst (and_then m f) = (case fst m of Inl e \<Rightarrow> Inl e | Inr x \<Rightarrow> fst (f x))"
  by (auto simp: and_then_def split: prod.splits sum.splits)

lemma snd_and_then:
  "snd (and_then m f) = (case fst m of Inl e \<Rightarrow> snd m | Inr x \<Rightarrow> snd m @ snd (f x))"
  by (auto simp: and_then_def split: prod.splits sum.splits)

lemma run_simps [simp]:
  "fst (succeed x) = Inr x" "snd (succeed x) = []"
  "fst (failure e) = Inl e" "snd (failure e) = []"
  "fst (lift r) = r" "snd (lift r) = []"
  "fst (emit ev r) = r" "snd (emit ev r) = [ev]"
  by (simp_all add: succeed_def failure_def lift_def emit_def)

lemma and_then_Inr:
  "fst (and_then m f) = Inr y \<longleftrightarrow> (\<exists>x. fst m = Inr x \<and> fst (f x) = Inr y)"
  by (auto simp: fst_and_then split: sum.splits)

lemma switch_method_events [simp]: "snd (switch_method p l m) = [SwitchMethod m]"
  by (simp add: switch_method_def)

lemma characterize_events [simp]: "snd (characterize Cs m g) = [Characterize m]"
  by (simp add: characterize_def)

lemma score_methods_events:
  "fst (score_methods p Cs ms l row) = Inr x \<Longrightarrow> snd (score_methods p Cs ms l row) = method_events ms"
proof (induction ms arbitrary: l row)
  case Nil
  then show ?case by (simp add: method_events_def)
next
  case (Cons m ms)
  then show ?case
    by (auto simp: method_events_def fst_and_then snd_and_then split: sum.splits)
qed

lemma build_C_matrices_events:
  "fst (build_C_matrices p ms l Cs) = Inr x \<Longrightarrow> snd (build_C_matrices p ms l Cs) = cache_events ms"
proof (induction ms arbitrary: l Cs)
  case Nil
  then show ?case by (simp add: cache_events_def)
next
  case (Cons m ms)
  then show ?case
    by (auto simp: cache_events_def fst_and_then snd_and_then split: sum.splits)
qed

section \<open>The effectful functions refine the pure ones\<close>

lemma fst_switch_method:
  "fst (switch_method p l m) =
     (case load_lcia_data p m of None \<Rightarrow> Inl (method_failure p m)
      | Some C \<Rightarrow> Inr (l\<lparr>lca_method := m, characterization_matrix := C\<rparr>))"
  by (simp add: switch_method_def)

lemma fst_characterize: "fst (characterize Cs m g) = score_of Cs m g"
  by (simp add: characterize_def score_of_def)

lemma score_methods_fst:
  "map_sum id snd (fst (score_methods p Cs ms l row)) = score_rows p Cs ms (inventory l) row"
  by (induction ms arbitrary: l row)
     (auto simp: fst_and_then fst_switch_method fst_characterize split: sum.splits option.splits)

lemma score_methods_demand:
  "fst (score_methods p Cs ms l row) = Inr (l', row') \<Longrightarrow> lca_demand l' = lca_demand l"
  by (induction ms arbitrary: l row)
     (auto simp: fst_and_then fst_switch_method fst_characterize split: sum.splits option.splits)

lemma build_C_matrices_fst:
  "map_sum id snd (fst (build_C_matrices p ms l Cs)) = build_cache p ms Cs"
  by (induction ms arbitrary: l Cs)
     (auto simp: fst_and_then fst_switch_method split: sum.splits option.splits)

lemma build_C_matrices_demand:
  "fst (build_C_matrices p ms l Cs) = Inr (l', Cs') \<Longrightarrow> lca_demand l' = lca_demand l"
  by (induction ms arbitrary: l Cs)
     (auto simp: fst_and_then fst_switch_method split: sum.splits option.splits)

lemma fst_lci:
  "fst (lci p l f) = (case lci_redo p (lca_demand l) f of Inl e \<Rightarrow> Inl e | Inr g \<Rightarrow> Inr (l\<lparr>inventory := g\<rparr>))"
  by (simp add: lci_def)

lemma fst_get_activity:
  "fst (get_activity p k) = (case map_of (activities p) k of None \<Rightarrow> Inl UnknownObject | Some a \<Rightarrow> Inr a)"
  by (simp add: get_activity_def)

lemma eval_demands_fst_aux:
  "lca_demand l = dm \<Longrightarrow> fst (eval_demands p ms Cs ds l results) = eval_rows p ms Cs dm ds results"
proof (induction p ms Cs dm ds results arbitrary: l rule: eval_rows.induct)
  case (1 p ms Cs dm results)
  then show ?case by simp
next
  case (2 p ms Cs dm rest results)
  then show ?case by (simp add: fst_and_then first_key_def)
next
  case (3 p ms Cs dm k v kvs rest results)
  let ?d = "(k, v) # kvs"
  show ?case
  proof (cases "map_of (activities p) k")
    case None
    then show ?thesis by (simp add: fst_and_then first_key_def fst_get_activity)
  next
    case (Some act)
    show ?thesis
    proof (cases "lci_redo p dm (int_demand_of act ?d)")
      case (Inl e)
      then show ?thesis using Some "3.prems"
        by (simp add: fst_and_then first_key_def fst_get_activity fst_lci)
    next
      case g: (Inr g)
      let ?l1 = "l\<lparr>inventory := g\<rparr>"
      have sr: "map_sum id snd (fst (score_methods p Cs ms ?l1 (init_row ms))) = score_rows p Cs ms g (init_row ms)"
        using score_methods_fst [of p Cs ms ?l1 "init_row ms"] by simp
      show ?thesis
      proof (cases "fst (score_methods p Cs ms ?l1 (init_row ms))")
        case (Inl e)
        have "score_rows p Cs ms g (init_row ms) = Inl e" using sr Inl by simp
        then show ?thesis using Some g Inl "3.prems"
          by (simp add: fst_and_then first_key_def fst_get_activity fst_lci)
      next
        case (Inr x)
        obtain l2 row where x: "x = (l2, row)" by (cases x)
        have sm: "fst (score_methods p Cs ms ?l1 (init_row ms)) = Inr (l2, row)"
          using Inr x by simp
        have d: "lca_demand l2 = dm"
          using score_methods_demand [OF sm] "3.prems" by simp
        have row: "score_rows p Cs ms g (init_row ms) = Inr row" using sr sm by simp
        let ?res = "AList.update (act_str act) row (AList.update (act_str act) (init_row ms) results)"
        have ih: "fst (eval_demands p ms Cs rest l2 ?res) = eval_rows p ms Cs dm rest ?res"
          by (rule "3.IH" [OF Some g row d])
        have "fst (eval_demands p ms Cs (?d # rest) l results) = fst (eval_demands p ms Cs rest l2 ?res)"
          using Some g sm "3.prems"
          by (simp add: fst_and_then first_key_def fst_get_activity fst_lci)
        also have "\<dots> = eval_rows p ms Cs dm (?d # rest) results"
          using ih Some g row by simp
        finally show ?thesis .
      qed
    qed
  qed
qed

lemma eval_demands_fst:
  "fst (eval_demands p ms Cs ds l results) = eval_rows p ms Cs (lca_demand l) ds results"
  by (rule eval_demands_fst_aux) simp

lemma staticLCA_fst: "fst (staticLCA p inputs) = outcome p inputs"
proof -
  let ?ms = "impact_categories inputs" and ?ds = "demands inputs"
  show ?thesis
  proof (cases "?ms = []")
    case True
    then show ?thesis by (simp add: staticLCA_def outcome_def Let_def)
  next
    case False
    show ?thesis
    proof (cases "fst (check_methods ?ms)")
      case (Inl e)
      then show ?thesis using False by (simp add: staticLCA_def outcome_def Let_def fst_and_then)
    next
      case chk: (Inr u)
      show ?thesis
      proof (cases "lca_init p (all_demands_of ?ds) (?ms ! 0)")
        case (Some e)
        then show ?thesis using False chk
          by (simp add: staticLCA_def outcome_def Let_def fst_and_then new_LCA_def)
      next
        case init: None
        show ?thesis
        proof (cases "lci_first p (all_demands_of ?ds)")
          case (Inl e)
          then show ?thesis using False chk init
            by (simp add: staticLCA_def outcome_def Let_def fst_and_then new_LCA_def lci0_def)
        next
          case first: (Inr g)
          let ?l = "\<lparr>lca_demand = all_demands_of ?ds, lca_method = ?ms ! 0, inventory = g,
                      characterization_matrix = []\<rparr>"
          have bc: "map_sum id snd (fst (build_C_matrices p ?ms ?l [])) = build_cache p ?ms []"
            by (rule build_C_matrices_fst)
          show ?thesis
          proof (cases "fst (build_C_matrices p ?ms ?l [])")
            case (Inl e)
            have "build_cache p ?ms [] = Inl e" using bc Inl by simp
            then show ?thesis using False chk init first Inl
              by (simp add: staticLCA_def outcome_def Let_def fst_and_then new_LCA_def lci0_def)
          next
            case (Inr x)
            obtain l' Cs where x: "x = (l', Cs)" by (cases x)
            have d: "lca_demand l' = all_demands_of ?ds"
              using build_C_matrices_demand [of p ?ms ?l "[]" l' Cs] Inr x by simp
            have c: "build_cache p ?ms [] = Inr Cs" using bc Inr x by simp
            show ?thesis using False chk init first Inr x c d
              by (simp add: staticLCA_def outcome_def Let_def fst_and_then new_LCA_def lci0_def
                  eval_demands_fst split: sum.splits)
          qed
        qed
      qed
    qed
  qed
qed

section \<open>Event traces\<close>

lemma eval_demands_events:
  "fst (eval_demands p ms Cs ds l results) = Inr r \<Longrightarrow>
   snd (eval_demands p ms Cs ds l results) = concat (map (demand_events p ms) ds)"
proof (induction ds arbitrary: l results)
  case Nil
  then show ?case by simp
next
  case (Cons d ds)
  from Cons.prems obtain k act l1 l2 row where
    k: "fst (first_key d) = Inr k" and
    a: "fst (get_activity p k) = Inr act" and
    l1: "fst (lci p l (int_demand_of act d)) = Inr l1" and
    sm: "fst (score_methods p Cs ms l1 (init_row ms)) = Inr (l2, row)" and
    rest: "fst (eval_demands p ms Cs ds l2
             (AList.update (act_str act) row (AList.update (act_str act) (init_row ms) results))) = Inr r"
    by (auto simp: and_then_Inr)
  have e1: "snd (first_key d) = []" by (simp add: first_key_def split: list.splits)
  have e2: "snd (get_activity p k) = [GetActivity k]" by (simp add: get_activity_def)
  have e3: "snd (lci p l (int_demand_of act d)) = [Lci (Some (int_demand_of act d))]"
    by (simp add: lci_def)
  have e4: "snd (score_methods p Cs ms l1 (init_row ms)) = method_events ms"
    by (rule score_methods_events [OF sm])
  have e5: "snd (eval_demands p ms Cs ds l2
             (AList.update (act_str act) row (AList.update (act_str act) (init_row ms) results)))
           = concat (map (demand_events p ms) ds)"
    by (rule Cons.IH [OF rest])
  have de: "demand_events p ms d = GetActivity k # Lci (Some (int_demand_of act d)) # method_events ms"
    using k a by (auto simp: demand_events_def first_key_def fst_get_activity split: list.splits option.splits)
  show ?case using k a l1 sm e1 e2 e3 e4 e5 de
    by (simp add: snd_and_then)
qed

lemma staticLCA_events:
  assumes "fst (staticLCA p inputs) = Inr r"
  shows "snd (staticLCA p inputs) =
           NewLCA (all_demands_of (demands inputs)) (impact_categories inputs ! 0) # Lci None #
           cache_events (impact_categories inputs) @
           concat (map (demand_events p (impact_categories inputs)) (demands inputs))"
proof -
  let ?ms = "impact_categories inputs" and ?ds = "demands inputs"
  have ne: "?ms \<noteq> []" using assms by (auto simp: staticLCA_def Let_def)
  then have run: "staticLCA p inputs =
        and_then (check_methods ?ms) (\<lambda>_.
        and_then (new_LCA p (all_demands_of ?ds) (?ms ! 0)) (\<lambda>l.
        and_then (lci0 p l) (\<lambda>l.
        and_then (build_C_matrices p ?ms l []) (\<lambda>(l, Cs).
        and_then (eval_demands p ?ms Cs ?ds l []) (\<lambda>results.
          lift (convert_results_format results))))))"
    by (simp add: staticLCA_def Let_def)
  from assms [unfolded run] obtain u l0 l1 l2 Cs res where
    c: "fst (check_methods ?ms) = Inr u" and
    n: "fst (new_LCA p (all_demands_of ?ds) (?ms ! 0)) = Inr l0" and
    f: "fst (lci0 p l0) = Inr l1" and
    b: "fst (build_C_matrices p ?ms l1 []) = Inr (l2, Cs)" and
    e: "fst (eval_demands p ?ms Cs ?ds l2 []) = Inr res"
    by (auto simp: and_then_Inr)
  have e0: "snd (check_methods ?ms) = []"
    by (simp add: check_methods_def split: pyval.splits list.splits)
  have e1: "snd (new_LCA p (all_demands_of ?ds) (?ms ! 0)) = [NewLCA (all_demands_of ?ds) (?ms ! 0)]"
    by (simp add: new_LCA_def)
  have e2: "snd (lci0 p l0) = [Lci None]" by (simp add: lci0_def)
  note e3 = build_C_matrices_events [OF b]
  note e4 = eval_demands_events [OF e]
  show ?thesis unfolding run using c n f b e e0 e1 e2 e3 e4
    by (simp add: snd_and_then)
qed

lemma count_method_events [simp]:
  "count_events is_NewLCA (method_events ms) = 0"
  "count_events is_Lci (method_events ms) = 0"
  "count_events is_CopyMatrix (method_events ms) = 0"
  "count_events is_SwitchMethod (method_events ms) = length ms"
  "count_events is_Characterize (method_events ms) = length ms"
  by (induction ms) (simp_all add: count_events_def method_events_def)

lemma count_cache_events [simp]:
  "count_events is_NewLCA (cache_events ms) = 0"
  "count_events is_Lci (cache_events ms) = 0"
  "count_events is_CopyMatrix (cache_events ms) = length ms"
  "count_events is_SwitchMethod (cache_events ms) = length ms"
  "count_events is_Characterize (cache_events ms) = 0"
  by (induction ms) (simp_all add: count_events_def cache_events_def)

lemma count_events_append [simp]:
  "count_events P (xs @ ys) = count_events P xs + count_events P ys"
  by (simp add: count_events_def)

lemma count_events_Cons [simp]:
  "count_events P (x # xs) = (if P x then 1 else 0) + count_events P xs"
  by (simp add: count_events_def)

lemma count_events_Nil [simp]: "count_events P [] = 0"
  by (simp add: count_events_def)

lemma count_demand_events:
  "fst (eval_demands p ms Cs ds l results) = Inr r \<Longrightarrow>
     count_events is_NewLCA (snd (eval_demands p ms Cs ds l results)) = 0
   \<and> count_events is_Lci (snd (eval_demands p ms Cs ds l results)) = length ds
   \<and> count_events is_CopyMatrix (snd (eval_demands p ms Cs ds l results)) = 0
   \<and> count_events is_SwitchMethod (snd (eval_demands p ms Cs ds l results)) = length ds * length ms
   \<and> count_events is_Characterize (snd (eval_demands p ms Cs ds l results)) = length ds * length ms"
proof (induction ds arbitrary: l results)
  case Nil
  then show ?case by simp
next
  case (Cons d ds)
  from Cons.prems obtain k act l1 l2 row where
    k: "fst (first_key d) = Inr k" and
    a: "fst (get_activity p k) = Inr act" and
    l1: "fst (lci p l (int_demand_of act d)) = Inr l1" and
    sm: "fst (score_methods p Cs ms l1 (init_row ms)) = Inr (l2, row)" and
    rest: "fst (eval_demands p ms Cs ds l2
             (AList.update (act_str act) row (AList.update (act_str act) (init_row ms) results))) = Inr r"
    by (auto simp: and_then_Inr)
  have e1: "snd (first_key d) = []" by (simp add: first_key_def split: list.splits)
  have e2: "snd (get_activity p k) = [GetActivity k]" by (simp add: get_activity_def)
  have e3: "snd (lci p l (int_demand_of act d)) = [Lci (Some (int_demand_of act d))]"
    by (simp add: lci_def)
  note e4 = score_methods_events [OF sm]
  have ev: "snd (eval_demands p ms Cs (d # ds) l results) =
      GetActivity k # Lci (Some (int_demand_of act d)) # method_events ms @
      snd (eval_demands p ms Cs ds l2
             (AList.update (act_str act) row (AList.update (act_str act) (init_row ms) results)))"
    using k a l1 sm e1 e2 e3 e4 by (simp add: snd_and_then)
  show ?case unfolding ev using Cons.IH [OF rest] by simp
qed

lemma staticLCA_counts:
  assumes "fst (staticLCA p inputs) = Inr r"
  shows "count_events is_NewLCA (snd (staticLCA p inputs)) = 1
       \<and> count_events is_Lci (snd (staticLCA p inputs)) = length (demands inputs) + 1
       \<and> count_events is_CopyMatrix (snd (staticLCA p inputs)) = length (impact_categories inputs)
       \<and> count_events is_Characterize (snd (staticLCA p inputs)) =
           length (demands inputs) * length (impact_categories inputs)"
proof -
  let ?ms = "impact_categories inputs" and ?ds = "demands inputs"
  have ne: "?ms \<noteq> []" using assms by (auto simp: staticLCA_def Let_def)
  then have run: "staticLCA p inputs =
        and_then (check_methods ?ms) (\<lambda>_.
        and_then (new_LCA p (all_demands_of ?ds) (?ms ! 0)) (\<lambda>l.
        and_then (lci0 p l) (\<lambda>l.
        and_then (build_C_matrices p ?ms l []) (\<lambda>(l, Cs).
        and_then (eval_demands p ?ms Cs ?ds l []) (\<lambda>results.
          lift (convert_results_format results))))))"
    by (simp add: staticLCA_def Let_def)
  from assms [unfolded run] obtain u l0 l1 l2 Cs res where
    c: "fst (check_methods ?ms) = Inr u" and
    n: "fst (new_LCA p (all_demands_of ?ds) (?ms ! 0)) = Inr l0" and
    f: "fst (lci0 p l0) = Inr l1" and
    b: "fst (build_C_matrices p ?ms l1 []) = Inr (l2, Cs)" and
    e: "fst (eval_demands p ?ms Cs ?ds l2 []) = Inr res"
    by (auto simp: and_then_Inr)
  have e0: "snd (check_methods ?ms) = []"
    by (simp add: check_methods_def split: pyval.splits list.splits)
  have e1: "snd (new_LCA p (all_demands_of ?ds) (?ms ! 0)) = [NewLCA (all_demands_of ?ds) (?ms ! 0)]"
    by (simp add: new_LCA_def)
  have e2: "snd (lci0 p l0) = [Lci None]" by (simp add: lci0_def)
  note e3 = build_C_matrices_events [OF b]
  have ev: "snd (staticLCA p inputs) =
      NewLCA (all_demands_of ?ds) (?ms ! 0) # Lci None # cache_events ?ms @
      snd (eval_demands p ?ms Cs ?ds l2 [])"
    unfolding run using c n f b e e0 e1 e2 e3 by (simp add: snd_and_then)
  show ?thesis unfolding ev using count_demand_events [OF e] by simp
qed

lemmas run_defs = staticLCA_def Let_def and_then_def check_methods_def new_LCA_def lci0_def lci_def
  switch_method_def get_activity_def characterize_def first_key_def succeed_def failure_def lift_def
  emit_def all_demands_of_def init_row_def int_demand_of_def load_lcia_data_def method_key_def
  mat_mul_def mat_sum_def n_cols_def convert_results_format_def join_key_def
  scenario_def scenario_inventory_def scenario_method_failure_def amount_at_def

section \<open>The request handler's checks\<close>

lemma check_activities_known:
  "\<forall>k\<in>set ks. map_of (activities p) (db, k) \<noteq> None \<Longrightarrow>
   check_activities p db ks = (Inr (), map (DbGet db) ks)"
  by (induction ks) (auto simp: and_then_def emit_def succeed_def)

lemma check_activities_unknown:
  "\<forall>k\<in>set ks1. map_of (activities p) (db, k) \<noteq> None \<Longrightarrow>
   map_of (activities p) (db, k) = None \<Longrightarrow>
   check_activities p db (ks1 @ k # ks2) =
     (Inl (HTTPException 404 (''Activity '' @ k @ '' not found.'')), map (DbGet db) (ks1 @ [k]))"
  by (induction ks1) (auto simp: and_then_def emit_def succeed_def)

lemma check_categories_known:
  "set cs \<subseteq> set registry \<Longrightarrow> check_categories registry cs acc = Inr (acc @ cs)"
  by (induction cs arbitrary: acc) auto

lemma check_categories_unknown:
  "set cs1 \<subseteq> set registry \<Longrightarrow> c \<notin> set registry \<Longrightarrow>
   check_categories registry (cs1 @ c # cs2) acc = Inl (HTTPException 404 ''Impact category not found.'')"
  by (induction cs1 arbitrary: acc) auto

lemma select_lcia_filter:
  "\<forall>m\<in>set registry. m \<noteq> [] \<Longrightarrow>
   select_lcia lm registry = Inr (filter (\<lambda>m. hd m = lm) registry)"
  by (induction lm registry rule: select_lcia.induct) auto

lemma select_methods_lcia:
  "lcia_method body = Some lm \<Longrightarrow> lm \<noteq> [] \<Longrightarrow>
   select_methods p body = select_lcia lm (map fst (methods p))"
  by (cases lm) (simp_all add: select_methods_def)

text \<open>
  The handler's own error for a request without methods: it is raised after the project was
  made current and every demanded code was looked up, and before the LCA object exists.
\<close>

lemma run_lca_without_methods:
  assumes "map_of w project_name = Some p" and "database_name \<in> set (databases p)"
    and "\<forall>k\<in>set (concat (map (map fst) (req_demands body))).
           map_of (activities p) (database_name, k) \<noteq> None"
    and "lcia_method body = None \<or> lcia_method body = Some []"
    and "req_impact_categories body = None \<or> req_impact_categories body = Some []"
  shows "run_lca w project_name database_name body =
           (Inl (HTTPException 400 ''No impact categories provided or lcia method provided.''),
            SetCurrent project_name #
            map (DbGet database_name) (concat (map (map fst) (req_demands body))))"
proof -
  have s: "select_methods p body =
      Inl (HTTPException 400 ''No impact categories provided or lcia method provided.'')"
    using assms(4,5) by (auto simp: select_methods_def)
  show ?thesis
    using assms(1,2) check_activities_known [OF assms(3)] s
    by (simp add: run_lca_def and_then_def emit_def lift_def)
qed

section \<open>The demand vector handed to the solver\<close>

lemma int_demand_of_single: "int_demand_of act [(k, v)] = [(act_id act, v)]"
  by (simp add: int_demand_of_def)

lemma int_demand_fold:
  "fold (\<lambda>(_, v) acc. AList.update i v acc) d [(i, w)] = [(i, snd (last ((k, w) # d)))]"
  by (induction d arbitrary: w) (auto split: prod.splits)

lemma int_demand_of_nonempty:
  "d \<noteq> [] \<Longrightarrow> int_demand_of act d = [(act_id act, snd (last d))]"
proof (cases d)
  case Nil
  then show "d \<noteq> [] \<Longrightarrow> ?thesis" by simp
next
  case (Cons kv rest)
  obtain k w where kv: "kv = (k, w)" by (cases kv)
  show "d \<noteq> [] \<Longrightarrow> ?thesis"
    using int_demand_fold [of "act_id act" rest w k] Cons kv
    by (simp add: int_demand_of_def)
qed

section \<open>Converting the result keys\<close>

lemma update_fresh: "k \<notin> fst ` set al \<Longrightarrow> AList.update k v al = al @ [(k, v)]"
  by (induction al) auto

lemma convert_inner_distinct:
  "\<forall>k\<in>fst ` set kvs. \<exists>s. join_key k = Inr s \<Longrightarrow>
   distinct (map (\<lambda>kv. render (fst kv)) kvs) \<Longrightarrow>
   (\<lambda>kv. render (fst kv)) ` set kvs \<inter> fst ` set acc = {} \<Longrightarrow>
   convert_inner kvs acc = Inr (acc @ map (\<lambda>(k, v). (render k, v)) kvs)"
proof (induction kvs arbitrary: acc)
  case Nil
  then show ?case by simp
next
  case (Cons kv kvs)
  obtain k v where kv: "kv = (k, v)" by (cases kv)
  from Cons.prems(1) kv obtain s where s: "join_key k = Inr s" by auto
  then have r: "render k = s" by (simp add: render_def)
  have fresh: "s \<notin> fst ` set acc" using Cons.prems(3) kv r by auto
  have upd: "AList.update s v acc = acc @ [(s, v)]" by (rule update_fresh [OF fresh])
  have d: "distinct (map (\<lambda>kv. render (fst kv)) kvs)" using Cons.prems(2) by simp
  have notin: "s \<notin> (\<lambda>kv. render (fst kv)) ` set kvs" using Cons.prems(2) kv r by auto
  have disj: "(\<lambda>kv. render (fst kv)) ` set kvs \<inter> fst ` set (acc @ [(s, v)]) = {}"
    using Cons.prems(3) notin by auto
  have ok: "\<forall>k\<in>fst ` set kvs. \<exists>s. join_key k = Inr s" using Cons.prems(1) by auto
  show ?case
    using Cons.IH [OF ok d disj] kv s r upd by simp
qed

lemma convert_outer_distinct:
  "\<forall>(ok, inner)\<in>set rs. convert_inner inner [] = Inr (f inner) \<Longrightarrow>
   distinct (map fst rs) \<Longrightarrow>
   fst ` set rs \<inter> fst ` set acc = {} \<Longrightarrow>
   convert_outer rs acc = Inr (acc @ map (\<lambda>(ok, inner). (ok, f inner)) rs)"
proof (induction rs arbitrary: acc)
  case Nil
  then show ?case by simp
next
  case (Cons r rs)
  obtain ok inner where r: "r = (ok, inner)" by (cases r)
  have c: "convert_inner inner [] = Inr (f inner)" using Cons.prems(1) r by auto
  have fresh: "ok \<notin> fst ` set acc" using Cons.prems(3) r by auto
  have upd: "AList.update ok (f inner) acc = acc @ [(ok, f inner)]" by (rule update_fresh [OF fresh])
  have d: "distinct (map fst rs)" using Cons.prems(2) by simp
  have notin: "ok \<notin> fst ` set rs" using Cons.prems(2) r by auto
  have disj: "fst ` set rs \<inter> fst ` set (acc @ [(ok, f inner)]) = {}"
    using Cons.prems(3) notin by auto
  have all: "\<forall>(ok, inner)\<in>set rs. convert_inner inner [] = Inr (f inner)" using Cons.prems(1) by auto
  show ?case using Cons.IH [OF all d disj] r c upd by simp
qed

lemma join_key_three:
  "join_key (PTuple [PStr a, PStr b, PStr c]) = Inr (a @ '' | '' @ b @ '' | '' @ c)"
  by (simp add: join_key_def)

section \<open>The closed form of a successful run\<close>

lemma eval_rows_fold:
  "eval_rows p ms Cs dm ds results = Inr r \<Longrightarrow>
   r = fold (\<lambda>d. AList.update (label_of p d) (row_of p ms Cs dm d)) ds results"
proof (induction p ms Cs dm ds results rule: eval_rows.induct)
  case (1 p ms Cs dm results)
  then show ?case by simp
next
  case (2 p ms Cs dm rest results)
  then show ?case by simp
next
  case (3 p ms Cs dm k v kvs rest results)
  let ?d = "(k, v) # kvs"
  from "3.prems" obtain act g row where
    a: "map_of (activities p) k = Some act" and
    g: "lci_redo p dm (int_demand_of act ?d) = Inr g" and
    row: "score_rows p Cs ms g (init_row ms) = Inr row" and
    rest: "eval_rows p ms Cs dm rest
             (AList.update (act_str act) row (AList.update (act_str act) (init_row ms) results)) = Inr r"
    by (auto split: option.splits sum.splits)
  have l: "label_of p ?d = act_str act" using a by (simp add: label_of_def)
  have ro: "row_of p ms Cs dm ?d = row" using a g row by (simp add: row_of_def)
  show ?case using "3.IH" [OF a g row rest] l ro by simp
qed

lemma fold_update_keys:
  "fst ` set (fold (\<lambda>d. AList.update (f d) (g d)) ds res) = fst ` set res \<union> f ` set ds"
  by (induction ds arbitrary: res) (auto simp: dom_update)

lemma fold_update_distinct:
  "distinct (map fst res) \<Longrightarrow> distinct (map fst (fold (\<lambda>d. AList.update (f d) (g d)) ds res))"
  by (induction ds arbitrary: res) (auto simp: distinct_update)

lemma fold_update_other:
  "k \<notin> f ` set ds \<Longrightarrow> map_of (fold (\<lambda>d. AList.update (f d) (g d)) ds res) k = map_of res k"
  by (induction ds arbitrary: res) (auto simp: update_conv')

lemma fold_update_last:
  "f d \<notin> f ` set ds2 \<Longrightarrow>
   map_of (fold (\<lambda>d. AList.update (f d) (g d)) (ds1 @ d # ds2) res) (f d) = Some (g d)"
  by (simp add: fold_update_other update_conv')

lemma convert_outer_success_aux:
  "convert_outer rs acc = Inr out \<Longrightarrow> (outer_key, inner) \<in> set rs \<Longrightarrow>
   \<exists>c. convert_inner inner [] = Inr c"
proof (induction rs arbitrary: acc)
  case Nil
  then show ?case by simp
next
  case (Cons r rs)
  obtain ok' inner' where r: "r = (ok', inner')" by (cases r)
  from Cons.prems(1) r obtain c' where
    c': "convert_inner inner' [] = Inr c'" and
    rest: "convert_outer rs (AList.update ok' c' acc) = Inr out"
    by (auto split: sum.splits)
  show ?case
  proof (cases "(outer_key, inner) = r")
    case True
    then show ?thesis using r c' by auto
  next
    case False
    then have "(outer_key, inner) \<in> set rs" using Cons.prems(2) by simp
    then show ?thesis by (rule Cons.IH [OF rest])
  qed
qed

lemma convert_outer_success:
  assumes "convert_outer rs acc = Inr out"
  shows "\<forall>(outer_key, inner)\<in>set rs. convert_inner inner [] = Inr (converted inner)"
proof (clarify)
  fix outer_key and inner :: "(pyval \<times> 'a) list"
  assume "(outer_key, inner) \<in> set rs"
  then obtain c where "convert_inner inner [] = Inr c"
    using convert_outer_success_aux [OF assms] by blast
  then show "convert_inner inner [] = Inr (converted inner)" by (simp add: converted_def)
qed

lemma convert_results_format_distinct:
  assumes "convert_results_format raw = Inr r" and "distinct (map fst raw)"
  shows "r = map (\<lambda>(outer_key, inner). (outer_key, converted inner)) raw"
proof -
  have ok: "\<forall>(outer_key, inner)\<in>set raw. convert_inner inner [] = Inr (converted inner)"
    using assms(1) convert_outer_success unfolding convert_results_format_def by blast
  have "convert_outer raw [] = Inr ([] @ map (\<lambda>(outer_key, inner). (outer_key, converted inner)) raw)"
    by (rule convert_outer_distinct [OF ok assms(2)]) simp
  then show ?thesis using assms(1) by (simp add: convert_results_format_def)
qed

text \<open>The closed form of a successful run.\<close>

lemma staticLCA_closed_form:
  assumes "fst (staticLCA p inputs) = Inr r"
  shows "\<exists>Cs. build_cache p (impact_categories inputs) [] = Inr Cs \<and>
           r = map (\<lambda>(outer_key, inner). (outer_key, converted inner))
                 (fold (\<lambda>d. AList.update (label_of p d)
                          (row_of p (impact_categories inputs) Cs (all_demands_of (demands inputs)) d))
                    (demands inputs) [])"
proof -
  let ?ms = "impact_categories inputs" and ?ds = "demands inputs"
  from assms have o: "outcome p inputs = Inr r" by (simp add: staticLCA_fst)
  then obtain Cs raw where
    Cs: "build_cache p ?ms [] = Inr Cs" and
    raw: "eval_rows p ?ms Cs (all_demands_of ?ds) ?ds [] = Inr raw" and
    conv: "convert_results_format raw = Inr r"
    by (auto simp: outcome_def Let_def split: if_splits sum.splits option.splits)
  let ?fold = "fold (\<lambda>d. AList.update (label_of p d) (row_of p ?ms Cs (all_demands_of ?ds) d)) ?ds []"
  have r: "raw = ?fold" by (rule eval_rows_fold [OF raw])
  have d: "distinct (map fst raw)" unfolding r by (rule fold_update_distinct) simp
  have "r = map (\<lambda>(outer_key, inner). (outer_key, converted inner)) raw"
    by (rule convert_results_format_distinct [OF conv d])
  then show ?thesis using Cs r by blast
qed

lemma label_of_first_key:
  "fst (first_key d) = fst (first_key d') \<Longrightarrow> label_of p d = label_of p d'"
  by (auto simp: first_key_def label_of_def succeed_def failure_def split: list.splits)

lemma map_of_converted:
  "map_of (map (\<lambda>(outer_key, inner). (outer_key, converted inner)) raw) k =
   map_option converted (map_of raw k)"
  by (induction raw) auto

section \<open>Scaling commutes with the evaluation\<close>

lemma update_map_values:
  "AList.update k (f v) (map (\<lambda>(x, y). (x, f y)) al) = map (\<lambda>(x, y). (x, f y)) (AList.update k v al)"
  by (induction al) auto

lemma update_scale_row:
  "AList.update m (map_option ((*) c) s) (scale_row c row) = scale_row c (AList.update m s row)"
  unfolding scale_row_def by (rule update_map_values)

lemma update_scale_results:
  "AList.update l (scale_row c row) (scale_results c res) = scale_results c (AList.update l row res)"
  unfolding scale_results_def by (rule update_map_values)

lemma map2_scale:
  "map2 (+) (map ((*) a) (map ((*) c) g)) (map ((*) c) r) =
   map ((*) c) (map2 (+) (map ((*) a) g) (r :: real list))"
proof (induction g arbitrary: r)
  case Nil
  then show ?case by simp
next
  case (Cons x g)
  then show ?case by (cases r) (simp_all add: algebra_simps)
qed

lemma row_times_scale:
  "row_times n cs (scale_mat c G) = map ((*) c) (row_times n cs G)"
proof (induction n cs G rule: row_times.induct)
  case (1 n a cs g gs)
  have "map2 (+) (map ((*) a) (map ((*) c) g)) (map ((*) c) (row_times n cs gs)) =
        map ((*) c) (map2 (+) (map ((*) a) g) (row_times n cs gs))"
    by (rule map2_scale)
  moreover have "row_times n cs (map (map ((*) c)) gs) = map ((*) c) (row_times n cs gs)"
    using 1 by (simp add: scale_mat_def)
  ultimately show ?case by (simp add: scale_mat_def)
qed (simp_all add: scale_mat_def)

lemma n_cols_scale [simp]: "n_cols (scale_mat c G) = n_cols G"
  by (cases G) (simp_all add: n_cols_def scale_mat_def)

lemma length_scale [simp]: "length (scale_mat c G) = length G"
  by (simp add: scale_mat_def)

lemma mat_mul_scale:
  "mat_mul C (scale_mat c G) = map_sum id (scale_mat c) (mat_mul C G)"
proof -
  have shape: "list_all (\<lambda>row. length row = n) (scale_mat c G) = list_all (\<lambda>row. length row = n) G" for n
    by (simp add: scale_mat_def list_all_iff)
  have rows: "map (\<lambda>row. row_times (n_cols G) row (scale_mat c G)) C =
              scale_mat c (map (\<lambda>row. row_times (n_cols G) row G) C)"
    unfolding row_times_scale by (simp add: scale_mat_def)
  show ?thesis by (simp add: mat_mul_def shape rows)
qed

lemma mat_sum_scale: "mat_sum (scale_mat c M) = c * mat_sum M"
proof -
  have "sum_list (map ((*) c) r) = c * sum_list r" for r :: "real list"
    by (induction r) (simp_all add: algebra_simps)
  then show ?thesis
    by (induction M) (simp_all add: mat_sum_def scale_mat_def algebra_simps)
qed

lemma score_of_scale:
  "score_of Cs m (scale_mat c g) = map_sum id ((*) c) (score_of Cs m g)"
  by (simp add: score_of_def mat_mul_scale mat_sum_scale split: option.splits sum.splits)

lemma score_rows_scale:
  "score_rows p Cs ms (scale_mat c g) (scale_row c row) =
   map_sum id (scale_row c) (score_rows p Cs ms g row)"
proof (induction ms arbitrary: row)
  case Nil
  then show ?case by simp
next
  case (Cons m ms)
  show ?case
  proof (cases "load_lcia_data p m")
    case None
    then show ?thesis by simp
  next
    case (Some C)
    show ?thesis
    proof (cases "score_of Cs m g")
      case (Inl e)
      then show ?thesis using Some by (simp add: score_of_scale)
    next
      case (Inr s)
      have "score_rows p Cs ms (scale_mat c g) (scale_row c (AList.update m (Some s) row)) =
            map_sum id (scale_row c) (score_rows p Cs ms g (AList.update m (Some s) row))"
        by (rule Cons.IH)
      moreover have "AList.update m (Some (c * s)) (scale_row c row) =
                     scale_row c (AList.update m (Some s) row)"
        using update_scale_row [of m c "Some s" row] by simp
      ultimately show ?thesis using Some Inr
        by (simp add: score_of_scale id_def)
    qed
  qed
qed

lemma scale_init_row: "scale_row c (init_row ms) = init_row ms"
proof -
  have "scale_row c (fold (\<lambda>m row. AList.update m None row) ms row) =
        fold (\<lambda>m row. AList.update m None row) ms (scale_row c row)" for row
    by (induction ms arbitrary: row)
       (simp_all add: update_scale_row [of _ c None, simplified, symmetric])
  from this [of "[]"] show ?thesis by (simp add: init_row_def scale_row_def)
qed

lemma all_demands_of_scale: "all_demands_of (map (scale_demand c) ds) = all_demands_of ds"
proof -
  have "map fst (scale_demand c d) = map fst d" for d
    by (simp add: scale_demand_def case_prod_unfold comp_def)
  then have h: "concat (map (map fst) (map (scale_demand c) ds)) = concat (map (map fst) ds)"
    by (induction ds) simp_all
  show ?thesis unfolding all_demands_of_def h by (rule refl)
qed

lemma int_demand_of_scale:
  "d \<noteq> [] \<Longrightarrow> int_demand_of act (scale_demand c d) = [(act_id act, c * snd (last d))]"
proof -
  assume ne: "d \<noteq> []"
  then have "scale_demand c d \<noteq> []" by (simp add: scale_demand_def)
  then have "int_demand_of act (scale_demand c d) = [(act_id act, snd (last (scale_demand c d)))]"
    by (rule int_demand_of_nonempty)
  moreover have "snd (last (scale_demand c d)) = c * snd (last d)"
    using ne by (simp add: scale_demand_def last_map case_prod_unfold)
  ultimately show ?thesis by simp
qed

lemma eval_rows_scale:
  assumes hom: "\<forall>dm i v. lci_redo p dm [(i, c * v)] = map_sum id (scale_mat c) (lci_redo p dm [(i, v)])"
  shows "eval_rows p ms Cs dm (map (scale_demand c) ds) (scale_results c results) =
         map_sum id (scale_results c) (eval_rows p ms Cs dm ds results)"
  using assms
proof (induction p ms Cs dm ds results rule: eval_rows.induct)
  case (1 p ms Cs dm results)
  then show ?case by simp
next
  case (2 p ms Cs dm rest results)
  then show ?case by (simp add: scale_demand_def)
next
  case (3 p ms Cs dm k v kvs rest results)
  let ?d = "(k, v) # kvs"
  have sd: "scale_demand c ?d = (k, c * v) # scale_demand c kvs" by (simp add: scale_demand_def)
  show ?case
  proof (cases "map_of (activities p) k")
    case None
    then show ?thesis by (simp add: sd)
  next
    case (Some act)
    have f: "int_demand_of act ?d = [(act_id act, snd (last ?d))]"
      by (rule int_demand_of_nonempty) simp
    have f': "int_demand_of act ((k, c * v) # scale_demand c kvs) = [(act_id act, c * snd (last ?d))]"
      using int_demand_of_scale [of ?d act c] sd by simp
    have l: "lci_redo p dm [(act_id act, c * snd (last ?d))] =
             map_sum id (scale_mat c) (lci_redo p dm [(act_id act, snd (last ?d))])"
      using "3.prems" by blast
    show ?thesis
    proof (cases "lci_redo p dm [(act_id act, snd (last ?d))]")
      case (Inl e)
      then show ?thesis using Some f f' l by (simp add: sd)
    next
      case g: (Inr g)
      have sr: "score_rows p Cs ms (scale_mat c g) (init_row ms) =
                map_sum id (scale_row c) (score_rows p Cs ms g (init_row ms))"
        using score_rows_scale [of p Cs ms c g "init_row ms"] by (simp add: scale_init_row)
      show ?thesis
      proof (cases "score_rows p Cs ms g (init_row ms)")
        case (Inl e)
        then show ?thesis using Some f f' l g sr by (simp add: sd)
      next
        case (Inr row)
        let ?res = "AList.update (act_str act) row (AList.update (act_str act) (init_row ms) results)"
        have ih: "eval_rows p ms Cs dm (map (scale_demand c) rest) (scale_results c ?res) =
                  map_sum id (scale_results c) (eval_rows p ms Cs dm rest ?res)"
          using "3.IH" [OF Some _ Inr] f g "3.prems" by (simp add: id_def)
        have upd: "AList.update (act_str act) (scale_row c row)
                     (AList.update (act_str act) (init_row ms) (scale_results c results)) =
                   scale_results c ?res"
          using update_scale_results [of "act_str act" c row]
                update_scale_results [of "act_str act" c "init_row ms" results]
          by (simp add: scale_init_row)
        show ?thesis using Some f f' l g sr Inr ih upd by (simp add: sd id_def)
      qed
    qed
  qed
qed

lemma convert_inner_scale:
  "convert_inner (scale_row c kvs) (scale_row c acc) = map_sum id (scale_row c) (convert_inner kvs acc)"
proof (induction kvs arbitrary: acc)
  case Nil
  then show ?case by (simp add: scale_row_def)
next
  case (Cons kv kvs)
  obtain k v where kv: "kv = (k, v)" by (cases kv)
  show ?case
  proof (cases "join_key k")
    case (Inl e)
    then show ?thesis using kv by (simp add: scale_row_def)
  next
    case (Inr s)
    have "convert_inner (scale_row c kvs) (scale_row c (AList.update s v acc)) =
          map_sum id (scale_row c) (convert_inner kvs (AList.update s v acc))"
      by (rule Cons.IH)
    moreover have "scale_row c (kv # kvs) = (k, map_option ((*) c) v) # scale_row c kvs"
      using kv by (simp add: scale_row_def)
    ultimately show ?thesis using kv Inr by (simp add: update_scale_row id_def)
  qed
qed

lemma convert_outer_scale:
  "convert_outer (scale_results c rs) (scale_results c acc) =
   map_sum id (scale_results c) (convert_outer rs acc)"
proof (induction rs arbitrary: acc)
  case Nil
  then show ?case by (simp add: scale_results_def)
next
  case (Cons r rs)
  obtain l inner where r: "r = (l, inner)" by (cases r)
  have hd: "scale_results c (r # rs) = (l, scale_row c inner) # scale_results c rs"
    using r by (simp add: scale_results_def)
  have ci: "convert_inner (scale_row c inner) [] = map_sum id (scale_row c) (convert_inner inner [])"
    using convert_inner_scale [of c inner "[]"] by (simp add: scale_row_def)
  show ?case
  proof (cases "convert_inner inner []")
    case (Inl e)
    then show ?thesis using r hd ci by simp
  next
    case (Inr cv)
    have "convert_outer (scale_results c rs) (scale_results c (AList.update l cv acc)) =
          map_sum id (scale_results c) (convert_outer rs (AList.update l cv acc))"
      by (rule Cons.IH)
    then show ?thesis using r hd ci Inr by (simp add: update_scale_results id_def)
  qed
qed

lemma convert_results_format_scale:
  "convert_results_format (scale_results c rs) = map_sum id (scale_results c) (convert_results_format rs)"
  using convert_outer_scale [of c rs "[]"] by (simp add: convert_results_format_def scale_results_def)

section \<open>The assertion on the method list\<close>

text \<open>
  If the first element of the method list is not a tuple, or is a tuple whose first
  component is not a string, \<open>staticLCA\<close> fails with the assertion error and an empty
  event log. The assertion looks at nothing else.
\<close>

lemma staticLCA_assertion:
  assumes "(\<forall>xs. m \<noteq> PTuple xs) \<or> (\<exists>x xs. m = PTuple (x # xs) \<and> (\<forall>s. x \<noteq> PStr s))"
  shows "staticLCA p (inputs\<lparr>impact_categories := m # rest\<rparr>) =
           (Inl (AssertionError ''Methods must be a list of tuples of strings''), [])"
proof -
  have "check_methods (m # rest) =
          failure (AssertionError ''Methods must be a list of tuples of strings'')"
    using assms by (auto simp: check_methods_def split: pyval.splits list.splits)
  then show ?thesis by (simp add: staticLCA_def and_then_def failure_def)
qed

section \<open>Construction of the input and requests without methods\<close>

lemma is_method_tuple_iff:
  "is_method_tuple m \<longleftrightarrow> (\<exists>a b c. m = PTuple [PStr a, PStr b, PStr c])"
  by (induction m rule: is_method_tuple.induct) simp_all

lemma is_method_tuple_tuple_of: "is_method_tuple (tuple_of ss) \<longleftrightarrow> length ss = 3"
proof
  assume "is_method_tuple (tuple_of ss)"
  then obtain a b c where "map PStr ss = [PStr a, PStr b, PStr c]"
    by (auto simp: is_method_tuple_iff tuple_of_def)
  then have "length (map PStr ss) = 3" by simp
  then show "length ss = 3" by simp
next
  assume "length ss = 3"
  then obtain a b c where "ss = [a, b, c]"
    by (cases ss; cases "tl ss"; cases "tl (tl ss)") auto
  then show "is_method_tuple (tuple_of ss)" by (simp add: tuple_of_def)
qed

lemma make_LCAInput_new: "make_LCAInput ds cats = new_LCAInput ds (map tuple_of cats)"
  by (simp add: make_LCAInput_def new_LCAInput_def list_all_iff is_method_tuple_tuple_of)

lemma check_activities_lookups: "list_all is_lookup (snd (check_activities p db ks))"
  by (induction ks) (auto simp: snd_and_then split: sum.splits)

lemma select_methods_none:
  "lcia_method body = None \<or> lcia_method body = Some [] \<Longrightarrow>
   req_impact_categories body = None \<or> req_impact_categories body = Some [] \<Longrightarrow>
   select_methods p body =
     Inl (HTTPException 400 ''No impact categories provided or lcia method provided.'')"
  by (auto simp: select_methods_def)

lemma run_lca_no_methods_fails:
  assumes "lcia_method body = None \<or> lcia_method body = Some []"
    and "req_impact_categories body = None \<or> req_impact_categories body = Some []"
  shows "(\<exists>e. fst (run_lca w project_name database_name body) = Inl e)
       \<and> list_all is_lookup (snd (run_lca w project_name database_name body))"
proof (cases "map_of w project_name")
  case None
  then show ?thesis by (simp add: run_lca_def)
next
  case (Some q)
  show ?thesis
  proof (cases "database_name \<in> set (databases q)")
    case False
    then show ?thesis using Some by (simp add: run_lca_def fst_and_then snd_and_then)
  next
    case True
    let ?c = "check_activities q database_name (concat (map (map fst) (req_demands body)))"
    have l: "list_all is_lookup (snd ?c)" by (rule check_activities_lookups)
    note s = select_methods_none [OF assms, of q]
    show ?thesis
    proof (cases "fst ?c")
      case (Inl e)
      then show ?thesis using Some True l by (simp add: run_lca_def fst_and_then snd_and_then)
    next
      case (Inr u)
      then show ?thesis using Some True l s by (simp add: run_lca_def fst_and_then snd_and_then)
    qed
  qed
qed

section \<open>Claims\<close>

text \<open>
  C2, as the code has it. In a successful evaluation of \<open>n\<close> demands against \<open>m\<close>
  methods the LCA object is created once, the inventory is calculated \<open>n + 1\<close> times
  (once for the union of all demanded keys when the object is set up, then once per
  demand), each listed method's characterization matrix is copied into the cache once,
  and the product-and-sum is taken once per pair of a demand and a method.
\<close>

theorem C2_work_of_a_successful_run:
  assumes "fst (staticLCA p inputs) = Inr r"
  shows "count_events is_NewLCA (snd (staticLCA p inputs)) = 1
       \<and> count_events is_Lci (snd (staticLCA p inputs)) = length (demands inputs) + 1
       \<and> count_events is_CopyMatrix (snd (staticLCA p inputs)) = length (impact_categories inputs)
       \<and> count_events is_Characterize (snd (staticLCA p inputs)) =
           length (demands inputs) * length (impact_categories inputs)"
  using assms by (rule staticLCA_counts)

text \<open>
  The run of the specification's example, one demand and one method: it succeeds with
  the score 30, and its log holds two inventory calculations for the single demand and
  two method switches for the single method.
\<close>

theorem C2_one_demand_two_solves:
  "staticLCA scenario
     \<lparr>demands = [[((''db'', ''P1''), 1)]],
      impact_categories = [PTuple [PStr ''m'', PStr ''cc'', PStr ''a'']]\<rparr> =
   (Inr [(''P1'', [(''m | cc | a'', Some 30)])],
    [NewLCA [((''db'', ''P1''), 1)] (PTuple [PStr ''m'', PStr ''cc'', PStr ''a'']),
     Lci None,
     SwitchMethod (PTuple [PStr ''m'', PStr ''cc'', PStr ''a'']),
     CopyMatrix (PTuple [PStr ''m'', PStr ''cc'', PStr ''a'']),
     GetActivity (''db'', ''P1''),
     Lci (Some [(1, 1)]),
     SwitchMethod (PTuple [PStr ''m'', PStr ''cc'', PStr ''a'']),
     Characterize (PTuple [PStr ''m'', PStr ''cc'', PStr ''a''])])"
  by (simp add: run_defs)

theorem C2_work_witness:
  "count_events is_NewLCA (snd (staticLCA scenario
       \<lparr>demands = [[((''db'', ''P1''), 1)], [((''db'', ''P2''), 1)]],
        impact_categories = [PTuple [PStr ''m'', PStr ''cc'', PStr ''a'']]\<rparr>)) = 1
   \<and> count_events is_Lci (snd (staticLCA scenario
       \<lparr>demands = [[((''db'', ''P1''), 1)], [((''db'', ''P2''), 1)]],
        impact_categories = [PTuple [PStr ''m'', PStr ''cc'', PStr ''a'']]\<rparr>)) = 3
   \<and> count_events is_CopyMatrix (snd (staticLCA scenario
       \<lparr>demands = [[((''db'', ''P1''), 1)], [((''db'', ''P2''), 1)]],
        impact_categories = [PTuple [PStr ''m'', PStr ''cc'', PStr ''a'']]\<rparr>)) = 1
   \<and> count_events is_Characterize (snd (staticLCA scenario
       \<lparr>demands = [[((''db'', ''P1''), 1)], [((''db'', ''P2''), 1)]],
        impact_categories = [PTuple [PStr ''m'', PStr ''cc'', PStr ''a'']]\<rparr>)) = 2"
proof -
  have ok: "fst (staticLCA scenario
       \<lparr>demands = [[((''db'', ''P1''), 1)], [((''db'', ''P2''), 1)]],
        impact_categories = [PTuple [PStr ''m'', PStr ''cc'', PStr ''a'']]\<rparr>) =
      Inr [(''P1'', [(''m | cc | a'', Some 30)]), (''P2'', [(''m | cc | a'', Some 15)])]"
    by (simp add: run_defs)
  show ?thesis using C2_work_of_a_successful_run [OF ok] by simp
qed

text \<open>
  C4, as the code has it. In an existing project and database: if some demand names a
  code the database does not hold, the request fails with HTTP 404 whose detail names the
  first such code, after looking up the codes before it and nothing else. If all codes
  are known, no \<open>lcia_method\<close> is given and some listed impact category is not a
  registered method key, the request fails with HTTP 404 \<open>Impact category not found.\<close>
  (the detail does not name the key), after the activity lookups and nothing else. In
  both cases no result is returned and the LCA object is never created.
\<close>

theorem C4_not_found_aborts_the_batch:
  assumes "map_of w project_name = Some p" and "database_name \<in> set (databases p)"
  shows "(concat (map (map fst) (req_demands body)) = ks1 @ k # ks2
          \<and> (\<forall>k'\<in>set ks1. map_of (activities p) (database_name, k') \<noteq> None)
          \<and> map_of (activities p) (database_name, k) = None
          \<longrightarrow> run_lca w project_name database_name body =
                (Inl (HTTPException 404 (''Activity '' @ k @ '' not found.'')),
                 SetCurrent project_name # map (DbGet database_name) (ks1 @ [k])))
       \<and> ((\<forall>k'\<in>set (concat (map (map fst) (req_demands body))).
              map_of (activities p) (database_name, k') \<noteq> None)
          \<and> (lcia_method body = None \<or> lcia_method body = Some [])
          \<and> req_impact_categories body = Some (cs1 @ c # cs2)
          \<and> set cs1 \<subseteq> set (map fst (methods p))
          \<and> c \<notin> set (map fst (methods p))
          \<longrightarrow> run_lca w project_name database_name body =
                (Inl (HTTPException 404 ''Impact category not found.''),
                 SetCurrent project_name #
                 map (DbGet database_name) (concat (map (map fst) (req_demands body)))))"
proof (intro conjI impI)
  assume h: "concat (map (map fst) (req_demands body)) = ks1 @ k # ks2
          \<and> (\<forall>k'\<in>set ks1. map_of (activities p) (database_name, k') \<noteq> None)
          \<and> map_of (activities p) (database_name, k) = None"
  then have "check_activities p database_name (concat (map (map fst) (req_demands body))) =
     (Inl (HTTPException 404 (''Activity '' @ k @ '' not found.'')), map (DbGet database_name) (ks1 @ [k]))"
    using check_activities_unknown [of ks1 p database_name k ks2] by simp
  then show "run_lca w project_name database_name body =
                (Inl (HTTPException 404 (''Activity '' @ k @ '' not found.'')),
                 SetCurrent project_name # map (DbGet database_name) (ks1 @ [k]))"
    using assms by (simp add: run_lca_def and_then_def emit_def)
next
  assume h: "(\<forall>k'\<in>set (concat (map (map fst) (req_demands body))).
              map_of (activities p) (database_name, k') \<noteq> None)
          \<and> (lcia_method body = None \<or> lcia_method body = Some [])
          \<and> req_impact_categories body = Some (cs1 @ c # cs2)
          \<and> set cs1 \<subseteq> set (map fst (methods p))
          \<and> c \<notin> set (map fst (methods p))"
  then have ca: "check_activities p database_name (concat (map (map fst) (req_demands body))) =
      (Inr (), map (DbGet database_name) (concat (map (map fst) (req_demands body))))"
    using check_activities_known by blast
  have cc: "check_categories (map fst (methods p)) (cs1 @ c # cs2) [] =
      Inl (HTTPException 404 ''Impact category not found.'')"
    using h check_categories_unknown by blast
  have "select_methods p body = Inl (HTTPException 404 ''Impact category not found.'')"
  proof (cases "cs1 @ c # cs2")
    case Nil
    then show ?thesis by simp
  next
    case (Cons x xs)
    then show ?thesis using h cc by (auto simp: select_methods_def)
  qed
  then show "run_lca w project_name database_name body =
                (Inl (HTTPException 404 ''Impact category not found.''),
                 SetCurrent project_name #
                 map (DbGet database_name) (concat (map (map fst) (req_demands body))))"
    using assms ca by (simp add: run_lca_def and_then_def emit_def lift_def)
qed

text \<open>
  Three runs on the example project. An \<open>lcia_method\<close> that matches no registered
  method selects the empty method list, and the request ends in the \<open>ValueError\<close> of
  \<open>staticLCA\<close>, not in a not-found error. Two different unknown impact categories end
  in one and the same error value.
\<close>

theorem C4_unmatched_lcia_method_is_no_not_found:
  "run_lca [(''p'', scenario)] ''p'' ''db''
      \<lparr>req_demands = [[(''P1'', 1)]], req_impact_categories = Some [], lcia_method = Some ''nope''\<rparr> =
   (Inl (ValueError ''No methods were specified. Please specify at least one method to perform LCA calculations''),
    [SetCurrent ''p'', DbGet ''db'' ''P1''])
   \<and> run_lca [(''p'', scenario)] ''p'' ''db''
      \<lparr>req_demands = [[(''P1'', 1)]], req_impact_categories = Some [[''x'', ''y'', ''z'']],
       lcia_method = None\<rparr> =
   (Inl (HTTPException 404 ''Impact category not found.''), [SetCurrent ''p'', DbGet ''db'' ''P1''])
   \<and> run_lca [(''p'', scenario)] ''p'' ''db''
      \<lparr>req_demands = [[(''P1'', 1)]], req_impact_categories = Some [[''u'', ''v'', ''w'']],
       lcia_method = None\<rparr> =
   (Inl (HTTPException 404 ''Impact category not found.''), [SetCurrent ''p'', DbGet ''db'' ''P1''])"
  by (simp add: run_lca_def run_defs select_methods_def make_LCAInput_def keyed_demands_def)

theorem C4_witness:
  "run_lca [(''p'', scenario)] ''p'' ''db''
      \<lparr>req_demands = [[(''P1'', 1)], [(''P9'', 1), (''P2'', 1)]],
       req_impact_categories = None, lcia_method = Some ''m''\<rparr> =
     (Inl (HTTPException 404 ''Activity P9 not found.''),
      [SetCurrent ''p'', DbGet ''db'' ''P1'', DbGet ''db'' ''P9''])
   \<and> run_lca [(''p'', scenario)] ''p'' ''db''
      \<lparr>req_demands = [[(''P1'', 1)], [(''P2'', 1)]],
       req_impact_categories = Some [[''m'', ''cc'', ''a''], [''x'', ''y'', ''z'']],
       lcia_method = None\<rparr> =
     (Inl (HTTPException 404 ''Impact category not found.''),
      [SetCurrent ''p'', DbGet ''db'' ''P1'', DbGet ''db'' ''P2''])"
proof -
  have p: "map_of [(''p'', scenario)] ''p'' = Some scenario" by simp
  have d: "''db'' \<in> set (databases scenario)" by (simp add: scenario_def)
  let ?b1 = "\<lparr>req_demands = [[(''P1'', 1)], [(''P9'', 1), (''P2'', 1)]],
       req_impact_categories = None, lcia_method = Some ''m''\<rparr>"
  let ?b2 = "\<lparr>req_demands = [[(''P1'', 1)], [(''P2'', 1)]],
       req_impact_categories = Some [[''m'', ''cc'', ''a''], [''x'', ''y'', ''z'']],
       lcia_method = None\<rparr>"
  have h1: "concat (map (map fst) (req_demands ?b1)) = [''P1''] @ ''P9'' # [''P2'']
          \<and> (\<forall>k'\<in>set [''P1'']. map_of (activities scenario) (''db'', k') \<noteq> None)
          \<and> map_of (activities scenario) (''db'', ''P9'') = None"
    by (simp add: scenario_def)
  have h2: "(\<forall>k'\<in>set (concat (map (map fst) (req_demands ?b2))).
              map_of (activities scenario) (''db'', k') \<noteq> None)
          \<and> (lcia_method ?b2 = None \<or> lcia_method ?b2 = Some [])
          \<and> req_impact_categories ?b2 = Some ([[''m'', ''cc'', ''a'']] @ [''x'', ''y'', ''z''] # [])
          \<and> set [[''m'', ''cc'', ''a'']] \<subseteq> set (map fst (methods scenario))
          \<and> [''x'', ''y'', ''z''] \<notin> set (map fst (methods scenario))"
    by (simp add: scenario_def)
  from C4_not_found_aborts_the_batch [OF p d, of ?b1 "[''P1'']" "''P9''" "[''P2'']"] h1
  have r1: "run_lca [(''p'', scenario)] ''p'' ''db'' ?b1 =
     (Inl (HTTPException 404 (''Activity '' @ ''P9'' @ '' not found.'')),
      SetCurrent ''p'' # map (DbGet ''db'') ([''P1''] @ [''P9'']))"
    by blast
  from C4_not_found_aborts_the_batch [OF p d, of ?b2 _ _ _ "[[''m'', ''cc'', ''a'']]" "[''x'', ''y'', ''z'']" "[]"] h2
  have r2: "run_lca [(''p'', scenario)] ''p'' ''db'' ?b2 =
      (Inl (HTTPException 404 ''Impact category not found.''),
                 SetCurrent ''p'' #
                 map (DbGet ''db'') (concat (map (map fst) (req_demands ?b2))))"
    by blast
  show ?thesis using r1 r2 by simp
qed

text \<open>
  C10. When the request carries a non-empty \<open>lcia_method\<close>, the run does not depend
  on its \<open>impact_categories\<close> field at all (so no not-found check is made on it), and
  when the project, the database and the demanded codes exist, the outcome is that of
  \<open>staticLCA\<close> on exactly the registered method keys whose first component equals
  \<open>lcia_method\<close>, in registry order.
\<close>

theorem C10_lcia_method_overrides_impact_categories:
  assumes "lcia_method body = Some lm" and "lm \<noteq> []"
  shows "run_lca w project_name database_name (body\<lparr>req_impact_categories := cats\<rparr>) =
           run_lca w project_name database_name body
       \<and> (map_of w project_name = Some p \<and> database_name \<in> set (databases p)
          \<and> (\<forall>k\<in>set (concat (map (map fst) (req_demands body))).
                map_of (activities p) (database_name, k) \<noteq> None)
          \<and> (\<forall>m\<in>set (map fst (methods p)). m \<noteq> [])
          \<and> (\<forall>m\<in>set (filter (\<lambda>m. hd m = lm) (map fst (methods p))). length m = 3)
          \<longrightarrow> fst (run_lca w project_name database_name (body\<lparr>req_impact_categories := cats\<rparr>)) =
                fst (staticLCA p
                  \<lparr>demands = keyed_demands database_name (req_demands body),
                   impact_categories =
                     map tuple_of (filter (\<lambda>m. hd m = lm) (map fst (methods p)))\<rparr>))"
proof -
  have sel: "select_methods q (body\<lparr>req_impact_categories := cats\<rparr>) = select_methods q body" for q
    using assms by (cases lm) (simp_all add: select_methods_def)
  have same: "run_lca w project_name database_name (body\<lparr>req_impact_categories := cats\<rparr>) =
           run_lca w project_name database_name body"
    by (simp add: run_lca_def sel split: option.splits)
  have "fst (run_lca w project_name database_name body) =
        fst (staticLCA p
          \<lparr>demands = keyed_demands database_name (req_demands body),
           impact_categories = map tuple_of (filter (\<lambda>m. hd m = lm) (map fst (methods p)))\<rparr>)"
    if p: "map_of w project_name = Some p" and db: "database_name \<in> set (databases p)"
      and known: "\<forall>k\<in>set (concat (map (map fst) (req_demands body))).
                map_of (activities p) (database_name, k) \<noteq> None"
      and ne: "\<forall>m\<in>set (map fst (methods p)). m \<noteq> []"
      and three: "\<forall>m\<in>set (filter (\<lambda>m. hd m = lm) (map fst (methods p))). length m = 3"
  proof -
    have s: "select_methods p body = Inr (filter (\<lambda>m. hd m = lm) (map fst (methods p)))"
      using select_methods_lcia [OF assms] select_lcia_filter [OF ne] by simp
    have mk: "make_LCAInput (keyed_demands database_name (req_demands body))
               (filter (\<lambda>m. hd m = lm) (map fst (methods p))) =
             Inr \<lparr>demands = keyed_demands database_name (req_demands body),
                  impact_categories = map tuple_of (filter (\<lambda>m. hd m = lm) (map fst (methods p)))\<rparr>"
      using three by (simp add: make_LCAInput_def list_all_iff)
    show ?thesis
      using p db check_activities_known [OF known] s mk
      by (simp add: run_lca_def fst_and_then)
  qed
  then show ?thesis using same by simp
qed

theorem C10_witness:
  "run_lca [(''p'', scenario)] ''p'' ''db''
      \<lparr>req_demands = [[(''P1'', 1)]], req_impact_categories = Some [[''x'', ''y'', ''z'']],
       lcia_method = Some ''m''\<rparr> =
   run_lca [(''p'', scenario)] ''p'' ''db''
      \<lparr>req_demands = [[(''P1'', 1)]], req_impact_categories = None, lcia_method = Some ''m''\<rparr>
   \<and> fst (run_lca [(''p'', scenario)] ''p'' ''db''
      \<lparr>req_demands = [[(''P1'', 1)]], req_impact_categories = Some [[''x'', ''y'', ''z'']],
       lcia_method = Some ''m''\<rparr>) =
     Inr [(''P1'', [(''m | cc | a'', Some 30), (''m | cc | b'', Some 10)])]"
proof -
  let ?body = "\<lparr>req_demands = [[(''P1'', 1)]], req_impact_categories = None, lcia_method = Some ''m''\<rparr>"
  have a: "lcia_method ?body = Some ''m''" by simp
  have b: "''m'' \<noteq> []" by simp
  have h: "map_of [(''p'', scenario)] ''p'' = Some scenario \<and> ''db'' \<in> set (databases scenario)
          \<and> (\<forall>k\<in>set (concat (map (map fst) (req_demands ?body))).
                map_of (activities scenario) (''db'', k) \<noteq> None)
          \<and> (\<forall>m\<in>set (map fst (methods scenario)). m \<noteq> [])
          \<and> (\<forall>m\<in>set (filter (\<lambda>m. hd m = ''m'') (map fst (methods scenario))). length m = 3)"
    by (simp add: scenario_def)
  have s: "fst (staticLCA scenario
                  \<lparr>demands = keyed_demands ''db'' (req_demands ?body),
                   impact_categories =
                     map tuple_of (filter (\<lambda>m. hd m = ''m'') (map fst (methods scenario)))\<rparr>) =
      Inr [(''P1'', [(''m | cc | a'', Some 30), (''m | cc | b'', Some 10)])]"
    by (simp add: run_defs keyed_demands_def tuple_of_def)
  note inst = C10_lcia_method_overrides_impact_categories
      [OF a b, of "[(''p'', scenario)]" "''p''" "''db''" "Some [[''x'', ''y'', ''z'']]" scenario]
  have c1: "run_lca [(''p'', scenario)] ''p'' ''db'' (?body\<lparr>req_impact_categories := Some [[''x'', ''y'', ''z'']]\<rparr>) =
           run_lca [(''p'', scenario)] ''p'' ''db'' ?body"
    using inst by (rule conjunct1)
  have c2: "fst (run_lca [(''p'', scenario)] ''p'' ''db'' (?body\<lparr>req_impact_categories := Some [[''x'', ''y'', ''z'']]\<rparr>)) =
      Inr [(''P1'', [(''m | cc | a'', Some 30), (''m | cc | b'', Some 10)])]"
    using inst [THEN conjunct2, THEN mp, OF h] s by simp
  show ?thesis using c1 c2 by simp
qed

text \<open>
  C1, on a demand that names two activities. The demand asks for 1 unit of \<open>P1\<close> and 3
  units of \<open>P2\<close>. The right-hand side handed to the solver is \<open>{1: 3}\<close>: the id of the
  first activity with the amount of the last entry, and the score is 90. The right-hand
  side the claim describes, \<open>{1: 1, 2: 3}\<close>, has the inventory \<open>[[0, 25]]\<close> and the
  score 75.
\<close>

theorem C1_demand_with_two_activities:
  "staticLCA scenario
     \<lparr>demands = [[((''db'', ''P1''), 1), ((''db'', ''P2''), 3)]],
      impact_categories = [PTuple [PStr ''m'', PStr ''cc'', PStr ''a'']]\<rparr> =
   (Inr [(''P1'', [(''m | cc | a'', Some 90)])],
    [NewLCA [((''db'', ''P1''), 1), ((''db'', ''P2''), 1)] (PTuple [PStr ''m'', PStr ''cc'', PStr ''a'']),
     Lci None,
     SwitchMethod (PTuple [PStr ''m'', PStr ''cc'', PStr ''a'']),
     CopyMatrix (PTuple [PStr ''m'', PStr ''cc'', PStr ''a'']),
     GetActivity (''db'', ''P1''),
     Lci (Some [(1, 3)]),
     SwitchMethod (PTuple [PStr ''m'', PStr ''cc'', PStr ''a'']),
     Characterize (PTuple [PStr ''m'', PStr ''cc'', PStr ''a''])])
   \<and> lci_redo scenario [((''db'', ''P1''), 1), ((''db'', ''P2''), 1)] [(1, 1), (2, 3)] = Inr [[0, 25]]
   \<and> score_of [(PTuple [PStr ''m'', PStr ''cc'', PStr ''a''], [[3]])]
        (PTuple [PStr ''m'', PStr ''cc'', PStr ''a'']) [[0, 25]] = Inr 75"
  by (simp add: run_defs score_of_def)

text \<open>
  C8, as the code has it. For a results mapping (outer keys distinct, as in any dict)
  whose method keys are 3-part tuples of strings, and in which no two method keys of one
  inner mapping are rendered as the same string: the converted mapping has the same
  outer keys in the same order, every inner entry keeps its score, and its key is the
  three parts joined by \<open>" | "\<close>.
\<close>

theorem C8_keys_joined_when_renderings_differ:
  assumes "distinct (map fst results)"
    and "\<forall>(outer_key, inner)\<in>set results.
           (\<forall>k\<in>fst ` set inner. \<exists>a b c. k = PTuple [PStr a, PStr b, PStr c])
           \<and> distinct (map (\<lambda>kv. render (fst kv)) inner)"
  shows "convert_results_format results =
           Inr (map (\<lambda>(outer_key, inner). (outer_key, map (\<lambda>(k, v). (render k, v)) inner)) results)
       \<and> render (PTuple [PStr a, PStr b, PStr c]) = a @ '' | '' @ b @ '' | '' @ c"
proof -
  have inner: "\<forall>(outer_key, inner)\<in>set results.
      convert_inner inner [] = Inr (map (\<lambda>(k, v). (render k, v)) inner)"
  proof (clarify)
    fix outer_key and inner :: "(pyval \<times> 'a) list"
    assume m: "(outer_key, inner) \<in> set results"
    with assms(2) have t: "\<forall>k\<in>fst ` set inner. \<exists>a b c. k = PTuple [PStr a, PStr b, PStr c]"
      and d: "distinct (map (\<lambda>kv. render (fst kv)) inner)" by auto
    have j: "\<forall>k\<in>fst ` set inner. \<exists>s. join_key k = Inr s"
    proof
      fix k assume "k \<in> fst ` set inner"
      with t obtain a b c where "k = PTuple [PStr a, PStr b, PStr c]" by blast
      then show "\<exists>s. join_key k = Inr s" by (simp add: join_key_three)
    qed
    show "convert_inner inner [] = Inr (map (\<lambda>(k, v). (render k, v)) inner)"
      using convert_inner_distinct [OF j d, of "[]"] by simp
  qed
  have "convert_outer results [] =
      Inr ([] @ map (\<lambda>(outer_key, inner). (outer_key, map (\<lambda>(k, v). (render k, v)) inner)) results)"
    by (rule convert_outer_distinct [OF inner assms(1)]) simp
  then show ?thesis by (simp add: convert_results_format_def render_def join_key_three)
qed

text \<open>
  Two different 3-part keys with the same rendering: the converted inner mapping has one
  entry, and the score 1 of the first key is gone.
\<close>

theorem C8_two_keys_one_rendering:
  "convert_results_format
     [(''A'', [(PTuple [PStr ''a | b'', PStr ''c'', PStr ''d''], 1 :: real),
               (PTuple [PStr ''a'', PStr ''b | c'', PStr ''d''], 2)])] =
   Inr [(''A'', [(''a | b | c | d'', 2)])]"
  by (simp add: convert_results_format_def join_key_def)

theorem C8_witness:
  "convert_results_format
     [(''A'', [(PTuple [PStr ''a'', PStr ''b'', PStr ''c''], 1 :: real),
               (PTuple [PStr ''a'', PStr ''b'', PStr ''d''], 2)]),
      (''B'', [(PTuple [PStr ''a'', PStr ''b'', PStr ''c''], 3)])] =
   Inr [(''A'', [(''a | b | c'', 1), (''a | b | d'', 2)]), (''B'', [(''a | b | c'', 3)])]"
proof -
  let ?r = "[(''A'', [(PTuple [PStr ''a'', PStr ''b'', PStr ''c''], 1 :: real),
               (PTuple [PStr ''a'', PStr ''b'', PStr ''d''], 2)]),
      (''B'', [(PTuple [PStr ''a'', PStr ''b'', PStr ''c''], 3)])]"
  have h1: "distinct (map fst ?r)" by simp
  have h2: "\<forall>(outer_key, inner)\<in>set ?r.
           (\<forall>k\<in>fst ` set inner. \<exists>a b c. k = PTuple [PStr a, PStr b, PStr c])
           \<and> distinct (map (\<lambda>kv. render (fst kv)) inner)"
    by (simp add: render_def join_key_def)
  show ?thesis
    using C8_keys_joined_when_renderings_differ [OF h1 h2, THEN conjunct1]
    by (simp add: render_def join_key_def)
qed

text \<open>
  C9. In a successful run the keys of the result are exactly the labels of the demands'
  first activities, each once. If two demands have the same first key, the result has
  fewer entries than there are demands. The entry under a label is the converted row of
  the last demand with that label: the rows of earlier demands with that label are
  overwritten.
\<close>

theorem C9_result_keyed_by_first_activity:
  assumes "fst (staticLCA p inputs) = Inr r"
  shows "distinct (map fst r)
       \<and> set (map fst r) = label_of p ` set (demands inputs)
       \<and> (\<forall>i j. i < j \<and> j < length (demands inputs)
              \<and> fst (first_key (demands inputs ! i)) = fst (first_key (demands inputs ! j))
            \<longrightarrow> length r < length (demands inputs))
       \<and> (\<exists>Cs. build_cache p (impact_categories inputs) [] = Inr Cs
            \<and> (\<forall>ds1 d ds2. demands inputs = ds1 @ d # ds2 \<and> label_of p d \<notin> label_of p ` set ds2
                 \<longrightarrow> map_of r (label_of p d) =
                     Some (converted (row_of p (impact_categories inputs) Cs
                                        (all_demands_of (demands inputs)) d))))"
proof -
  let ?ms = "impact_categories inputs" and ?ds = "demands inputs"
  from staticLCA_closed_form [OF assms] obtain Cs where
    Cs: "build_cache p ?ms [] = Inr Cs" and
    r: "r = map (\<lambda>(outer_key, inner). (outer_key, converted inner))
                 (fold (\<lambda>d. AList.update (label_of p d) (row_of p ?ms Cs (all_demands_of ?ds) d)) ?ds [])"
    by blast
  let ?raw = "fold (\<lambda>d. AList.update (label_of p d) (row_of p ?ms Cs (all_demands_of ?ds) d)) ?ds []"
  have keys: "map fst r = map fst ?raw" unfolding r by (simp add: case_prod_unfold comp_def)
  have d: "distinct (map fst r)" unfolding keys by (rule fold_update_distinct) simp
  have s: "set (map fst r) = label_of p ` set ?ds"
    unfolding keys using fold_update_keys [of "label_of p" _ ?ds "[]"] by simp
  have len: "length r = card (label_of p ` set ?ds)"
    using d s distinct_card [of "map fst r"] by simp
  have short: "length r < length ?ds"
    if ij: "i < j \<and> j < length ?ds \<and> fst (first_key (?ds ! i)) = fst (first_key (?ds ! j))" for i j
  proof -
    have eq: "label_of p (?ds ! i) = label_of p (?ds ! j)"
      using ij by (intro label_of_first_key) simp
    have "\<not> distinct (map (label_of p) ?ds)"
    proof
      assume "distinct (map (label_of p) ?ds)"
      then have "(map (label_of p) ?ds ! i = map (label_of p) ?ds ! j) = (i = j)"
        using ij by (intro nth_eq_iff_index_eq) simp_all
      then show False using ij eq by simp
    qed
    then have "card (set (map (label_of p) ?ds)) \<noteq> length (map (label_of p) ?ds)"
      using card_distinct by blast
    moreover have "card (set (map (label_of p) ?ds)) \<le> length (map (label_of p) ?ds)"
      by (rule card_length)
    ultimately show ?thesis using len by simp
  qed
  have last: "map_of r (label_of p d) = Some (converted (row_of p ?ms Cs (all_demands_of ?ds) d))"
    if h: "?ds = ds1 @ d # ds2 \<and> label_of p d \<notin> label_of p ` set ds2" for ds1 d ds2
  proof -
    have "map_of ?raw (label_of p d) = Some (row_of p ?ms Cs (all_demands_of ?ds) d)"
      using h fold_update_last [of "label_of p" d ds2 _ ds1 "[]"] by simp
    then show ?thesis unfolding r by (simp add: map_of_converted)
  qed
  show ?thesis using d s short last Cs by blast
qed

theorem C9_witness:
  "distinct (map fst [(''P1'', [(''m | cc | a'', Some (60 :: real))])])
   \<and> fst (staticLCA scenario
        \<lparr>demands = [[((''db'', ''P1''), 1)], [((''db'', ''P1''), 2)]],
         impact_categories = [PTuple [PStr ''m'', PStr ''cc'', PStr ''a'']]\<rparr>) =
       Inr [(''P1'', [(''m | cc | a'', Some 60)])]
   \<and> label_of scenario [((''db'', ''P1''), 2)] = ''P1''
   \<and> length [(''P1'', [(''m | cc | a'', Some (60 :: real))])] < length [[((''db'', ''P1''), 1 :: real)], [((''db'', ''P1''), 2)]]"
proof -
  let ?inputs = "\<lparr>demands = [[((''db'', ''P1''), 1)], [((''db'', ''P1''), 2)]],
         impact_categories = [PTuple [PStr ''m'', PStr ''cc'', PStr ''a'']]\<rparr>"
  have ok: "fst (staticLCA scenario ?inputs) = Inr [(''P1'', [(''m | cc | a'', Some 60)])]"
    by (simp add: run_defs)
  note c = C9_result_keyed_by_first_activity [OF ok]
  have l: "label_of scenario [((''db'', ''P1''), 2)] = ''P1''"
    by (simp add: label_of_def scenario_def)
  have "(0::nat) < 1 \<and> 1 < length (demands ?inputs)
        \<and> fst (first_key (demands ?inputs ! 0)) = fst (first_key (demands ?inputs ! 1))"
    by (simp add: first_key_def succeed_def)
  with c have "length [(''P1'', [(''m | cc | a'', Some (60 :: real))])] < length (demands ?inputs)"
    by blast
  then show ?thesis using c ok l by simp
qed

text \<open>
  C3, as the code has it. For two demands whose first activities have different labels:
  when the combined run and the two single runs succeed, and the library calculates the
  same inventories on the LCA object built for both demands as on the one built for
  either alone, the combined result is the result for the first demand followed by the
  result for the second, each with its one entry.
\<close>

theorem C3_reuse_equivalence_for_distinct_labels:
  assumes "fst (staticLCA p \<lparr>demands = [d1, d2], impact_categories = ms\<rparr>) = Inr r12"
    and "fst (staticLCA p \<lparr>demands = [d1], impact_categories = ms\<rparr>) = Inr r1"
    and "fst (staticLCA p \<lparr>demands = [d2], impact_categories = ms\<rparr>) = Inr r2"
    and "label_of p d1 \<noteq> label_of p d2"
    and "lci_redo p (all_demands_of [d1, d2]) = lci_redo p (all_demands_of [d1])"
    and "lci_redo p (all_demands_of [d1, d2]) = lci_redo p (all_demands_of [d2])"
  shows "r12 = r1 @ r2 \<and> map fst r1 = [label_of p d1] \<and> map fst r2 = [label_of p d2]"
proof -
  from staticLCA_closed_form [OF assms(1)] obtain Cs where
    Cs: "build_cache p ms [] = Inr Cs" and
    r12: "r12 = map (\<lambda>(outer_key, inner). (outer_key, converted inner))
                 (fold (\<lambda>d. AList.update (label_of p d) (row_of p ms Cs (all_demands_of [d1, d2]) d))
                    [d1, d2] [])"
    by auto
  from staticLCA_closed_form [OF assms(2)] Cs have
    r1: "r1 = map (\<lambda>(outer_key, inner). (outer_key, converted inner))
                 (fold (\<lambda>d. AList.update (label_of p d) (row_of p ms Cs (all_demands_of [d1]) d))
                    [d1] [])"
    by auto
  from staticLCA_closed_form [OF assms(3)] Cs have
    r2: "r2 = map (\<lambda>(outer_key, inner). (outer_key, converted inner))
                 (fold (\<lambda>d. AList.update (label_of p d) (row_of p ms Cs (all_demands_of [d2]) d))
                    [d2] [])"
    by auto
  have row1: "row_of p ms Cs (all_demands_of [d1, d2]) d1 = row_of p ms Cs (all_demands_of [d1]) d1"
    unfolding row_of_def assms(5) by (rule refl)
  have row2: "row_of p ms Cs (all_demands_of [d1, d2]) d2 = row_of p ms Cs (all_demands_of [d2]) d2"
    unfolding row_of_def assms(6) by (rule refl)
  show ?thesis unfolding r12 r1 r2 using assms(4) row1 row2 by simp
qed

text \<open>
  Two demands for the same activity, 1 unit and 2 units: the combined result has one
  entry with the score 60 of the second demand; alone, the first demand scores 30.
\<close>

theorem C3_same_first_activity_overwrites:
  "fst (staticLCA scenario
        \<lparr>demands = [[((''db'', ''P1''), 1)], [((''db'', ''P1''), 2)]],
         impact_categories = [PTuple [PStr ''m'', PStr ''cc'', PStr ''a'']]\<rparr>) =
     Inr [(''P1'', [(''m | cc | a'', Some 60)])]
   \<and> fst (staticLCA scenario
        \<lparr>demands = [[((''db'', ''P1''), 1)]],
         impact_categories = [PTuple [PStr ''m'', PStr ''cc'', PStr ''a'']]\<rparr>) =
     Inr [(''P1'', [(''m | cc | a'', Some 30)])]
   \<and> fst (staticLCA scenario
        \<lparr>demands = [[((''db'', ''P1''), 2)]],
         impact_categories = [PTuple [PStr ''m'', PStr ''cc'', PStr ''a'']]\<rparr>) =
     Inr [(''P1'', [(''m | cc | a'', Some 60)])]"
  by (simp add: run_defs)

theorem C3_witness:
  "[(''P1'', [(''m | cc | a'', Some (30 :: real))]), (''P2'', [(''m | cc | a'', Some 15)])] =
     [(''P1'', [(''m | cc | a'', Some 30)])] @ [(''P2'', [(''m | cc | a'', Some 15)])]
   \<and> fst (staticLCA scenario
        \<lparr>demands = [[((''db'', ''P1''), 1)], [((''db'', ''P2''), 1)]],
         impact_categories = [PTuple [PStr ''m'', PStr ''cc'', PStr ''a'']]\<rparr>) =
     Inr [(''P1'', [(''m | cc | a'', Some 30)]), (''P2'', [(''m | cc | a'', Some 15)])]
   \<and> fst (staticLCA scenario
        \<lparr>demands = [[((''db'', ''P1''), 1)]],
         impact_categories = [PTuple [PStr ''m'', PStr ''cc'', PStr ''a'']]\<rparr>) =
     Inr [(''P1'', [(''m | cc | a'', Some 30)])]
   \<and> fst (staticLCA scenario
        \<lparr>demands = [[((''db'', ''P2''), 1)]],
         impact_categories = [PTuple [PStr ''m'', PStr ''cc'', PStr ''a'']]\<rparr>) =
     Inr [(''P2'', [(''m | cc | a'', Some 15)])]"
proof -
  let ?ms = "[PTuple [PStr ''m'', PStr ''cc'', PStr ''a'']]"
  let ?d1 = "[((''db'', ''P1''), 1 :: real)]" and ?d2 = "[((''db'', ''P2''), 1 :: real)]"
  have a12: "fst (staticLCA scenario \<lparr>demands = [?d1, ?d2], impact_categories = ?ms\<rparr>) =
      Inr [(''P1'', [(''m | cc | a'', Some 30)]), (''P2'', [(''m | cc | a'', Some 15)])]"
    by (simp add: run_defs)
  have a1: "fst (staticLCA scenario \<lparr>demands = [?d1], impact_categories = ?ms\<rparr>) =
      Inr [(''P1'', [(''m | cc | a'', Some 30)])]"
    by (simp add: run_defs)
  have a2: "fst (staticLCA scenario \<lparr>demands = [?d2], impact_categories = ?ms\<rparr>) =
      Inr [(''P2'', [(''m | cc | a'', Some 15)])]"
    by (simp add: run_defs)
  have l: "label_of scenario ?d1 \<noteq> label_of scenario ?d2"
    by (simp add: label_of_def scenario_def)
  have s1: "lci_redo scenario (all_demands_of [?d1, ?d2]) = lci_redo scenario (all_demands_of [?d1])"
    by (simp add: scenario_def)
  have s2: "lci_redo scenario (all_demands_of [?d1, ?d2]) = lci_redo scenario (all_demands_of [?d2])"
    by (simp add: scenario_def)
  show ?thesis
    using C3_reuse_equivalence_for_distinct_labels [OF a12 a1 a2 l s1 s2] a12 a1 a2 by simp
qed

text \<open>
  C7. Let the library's inventory calculation be homogeneous for the factor \<open>c\<close>: a
  right-hand side with its amount multiplied by \<open>c\<close> has the inventory multiplied by
  \<open>c\<close> (or fails in the same way). Then evaluating the demands with all amounts
  multiplied by \<open>c\<close> fails exactly when the evaluation of the original demands fails,
  with the same error, and otherwise yields the same labels and method keys with every
  score multiplied by \<open>c\<close>, in exact real arithmetic. This holds for every \<open>c\<close>, so for
  every positive one.
\<close>

theorem C7_scores_scale_with_the_demand:
  assumes "\<forall>dm i v. lci_redo p dm [(i, c * v)] = map_sum id (scale_mat c) (lci_redo p dm [(i, v)])"
  shows "fst (staticLCA p \<lparr>demands = map (scale_demand c) ds, impact_categories = ms\<rparr>) =
         map_sum id (scale_results c) (fst (staticLCA p \<lparr>demands = ds, impact_categories = ms\<rparr>))"
proof -
  have er: "eval_rows p ms Cs (all_demands_of ds) (map (scale_demand c) ds) [] =
        map_sum id (scale_results c) (eval_rows p ms Cs (all_demands_of ds) ds [])" for Cs
    using eval_rows_scale [OF assms, of ms Cs "all_demands_of ds" ds "[]"]
    by (simp add: scale_results_def)
  show ?thesis
    unfolding staticLCA_fst outcome_def
    by (auto simp: Let_def all_demands_of_scale er convert_results_format_scale
          split: sum.splits option.splits)
qed

theorem C7_witness:
  "fst (staticLCA scenario
      \<lparr>demands = [[((''db'', ''P1''), 2 * 1)]],
       impact_categories = [PTuple [PStr ''m'', PStr ''cc'', PStr ''a'']]\<rparr>) =
     Inr [(''P1'', [(''m | cc | a'', Some (2 * 30))])]
   \<and> fst (staticLCA scenario
      \<lparr>demands = [[((''db'', ''P1''), 1)]],
       impact_categories = [PTuple [PStr ''m'', PStr ''cc'', PStr ''a'']]\<rparr>) =
     Inr [(''P1'', [(''m | cc | a'', Some 30)])]"
proof -
  have hom: "\<forall>dm i v. lci_redo scenario dm [(i, 2 * v)] =
               map_sum id (scale_mat 2) (lci_redo scenario dm [(i, v)])"
    by (simp add: scenario_def scenario_inventory_def amount_at_def scale_mat_def)
  have one: "fst (staticLCA scenario
      \<lparr>demands = [[((''db'', ''P1''), 1)]],
       impact_categories = [PTuple [PStr ''m'', PStr ''cc'', PStr ''a'']]\<rparr>) =
     Inr [(''P1'', [(''m | cc | a'', Some 30)])]"
    by (simp add: run_defs)
  show ?thesis
    using C7_scores_scale_with_the_demand [OF hom, of "[[((''db'', ''P1''), 1)]]"
            "[PTuple [PStr ''m'', PStr ''cc'', PStr ''a'']]"] one
    by (simp add: scale_demand_def scale_results_def scale_row_def)
qed

text \<open>
  C5, as the code has it. With an empty method list \<open>staticLCA\<close> fails with the
  \<open>ValueError\<close> for missing methods and its event log is empty: no LCA object was built,
  no inventory was calculated, no activity was looked up and no stored state was touched.
  A request to \<open>run_lca\<close> that names neither an \<open>lcia_method\<close> nor an impact category
  fails as well, and its log holds nothing but making the project current and looking up
  demanded codes: no LCA object, no inventory calculation, no matrix product. When the
  project, the database and every demanded code exist, that failure is HTTP 400, raised
  after the project was made current and every demanded code was looked up.
\<close>

theorem C5_no_methods_no_matrix_work:
  "staticLCA p (inputs\<lparr>impact_categories := []\<rparr>) =
     (Inl (ValueError ''No methods were specified. Please specify at least one method to perform LCA calculations''), [])
   \<and> ((lcia_method body = None \<or> lcia_method body = Some [])
       \<and> (req_impact_categories body = None \<or> req_impact_categories body = Some [])
      \<longrightarrow> (\<exists>e. fst (run_lca w project_name database_name body) = Inl e)
          \<and> list_all is_lookup (snd (run_lca w project_name database_name body))
          \<and> (map_of w project_name = Some q \<and> database_name \<in> set (databases q)
               \<and> (\<forall>k\<in>set (concat (map (map fst) (req_demands body))).
                     map_of (activities q) (database_name, k) \<noteq> None)
             \<longrightarrow> run_lca w project_name database_name body =
                   (Inl (HTTPException 400 ''No impact categories provided or lcia method provided.''),
                    SetCurrent project_name #
                    map (DbGet database_name) (concat (map (map fst) (req_demands body))))))"
proof -
  have a: "staticLCA p (inputs\<lparr>impact_categories := []\<rparr>) =
     (Inl (ValueError ''No methods were specified. Please specify at least one method to perform LCA calculations''), [])"
    by (simp add: staticLCA_def failure_def)
  show ?thesis using a run_lca_no_methods_fails run_lca_without_methods by blast
qed

text \<open>
  Two requests without methods on the example project. The first fails with HTTP 400
  after the project was made current and the demanded code was looked up in the database.
  The second demands an unknown code and fails with HTTP 404, a not-found error.
\<close>

theorem C5_handler_touches_the_store_first:
  "run_lca [(''p'', scenario)] ''p'' ''db''
      \<lparr>req_demands = [[(''P1'', 1)]], req_impact_categories = Some [], lcia_method = None\<rparr> =
     (Inl (HTTPException 400 ''No impact categories provided or lcia method provided.''),
      [SetCurrent ''p'', DbGet ''db'' ''P1''])
   \<and> run_lca [(''p'', scenario)] ''p'' ''db''
      \<lparr>req_demands = [[(''P9'', 1)]], req_impact_categories = Some [], lcia_method = None\<rparr> =
     (Inl (HTTPException 404 ''Activity P9 not found.''),
      [SetCurrent ''p'', DbGet ''db'' ''P9''])"
  by (simp add: run_lca_def run_defs select_methods_def)

theorem C5_witness:
  "staticLCA scenario \<lparr>demands = [[((''db'', ''P1''), 1)]], impact_categories = []\<rparr> =
     (Inl (ValueError ''No methods were specified. Please specify at least one method to perform LCA calculations''), [])
   \<and> list_all is_lookup (snd (run_lca [(''p'', scenario)] ''p'' ''db''
        \<lparr>req_demands = [[(''P1'', 1)], [(''P2'', 2)]], req_impact_categories = None, lcia_method = None\<rparr>))
   \<and> run_lca [(''p'', scenario)] ''p'' ''db''
        \<lparr>req_demands = [[(''P1'', 1)], [(''P2'', 2)]], req_impact_categories = None, lcia_method = None\<rparr> =
     (Inl (HTTPException 400 ''No impact categories provided or lcia method provided.''),
      [SetCurrent ''p'', DbGet ''db'' ''P1'', DbGet ''db'' ''P2''])"
proof -
  let ?body = "\<lparr>req_demands = [[(''P1'', 1)], [(''P2'', 2)]], req_impact_categories = None,
                 lcia_method = None\<rparr>"
  note inst = C5_no_methods_no_matrix_work
      [of scenario "\<lparr>demands = [[((''db'', ''P1''), 1)]], impact_categories = []\<rparr>" ?body
          "[(''p'', scenario)]" "''p''" "''db''" scenario]
  have h: "(lcia_method ?body = None \<or> lcia_method ?body = Some [])
       \<and> (req_impact_categories ?body = None \<or> req_impact_categories ?body = Some [])" by simp
  have g: "map_of [(''p'', scenario)] ''p'' = Some scenario \<and> ''db'' \<in> set (databases scenario)
               \<and> (\<forall>k\<in>set (concat (map (map fst) (req_demands ?body))).
                     map_of (activities scenario) (''db'', k) \<noteq> None)"
    by (simp add: scenario_def)
  have c1: "staticLCA scenario \<lparr>demands = [[((''db'', ''P1''), 1)]], impact_categories = []\<rparr> =
     (Inl (ValueError ''No methods were specified. Please specify at least one method to perform LCA calculations''), [])"
    using inst [THEN conjunct1] by simp
  note rest = inst [THEN conjunct2, THEN mp, OF h]
  have c2: "list_all is_lookup (snd (run_lca [(''p'', scenario)] ''p'' ''db'' ?body))"
    using rest by blast
  have c3: "run_lca [(''p'', scenario)] ''p'' ''db'' ?body =
     (Inl (HTTPException 400 ''No impact categories provided or lcia method provided.''),
      SetCurrent ''p'' # map (DbGet ''db'') (concat (map (map fst) (req_demands ?body))))"
    using rest [THEN conjunct2, THEN conjunct2, THEN mp, OF g] .
  show ?thesis using c1 c2 c3 by simp
qed

text \<open>
  C6. The method list reaches \<open>staticLCA\<close> inside an \<open>LCAInput\<close>, as in the call
  \<open>staticLCA(LCAInput(demands=demands, impact_categories=impact_categories))\<close> of
  \<open>run_lca\<close>. If any element of the list, the first or a later one, is not a tuple of
  strings (or is a tuple of strings that has not exactly three components), the
  construction of the \<open>LCAInput\<close> fails with the validation error, \<open>staticLCA\<close> is
  never entered and the event log is empty: no LCA object, no inventory calculation, no
  matrix product.
\<close>

theorem C6_malformed_method_rejected_at_construction:
  assumes "m \<in> set ms"
    and "(\<forall>ss. m \<noteq> PTuple (map PStr ss)) \<or> (\<exists>ss. m = PTuple (map PStr ss) \<and> length ss \<noteq> 3)"
  shows "and_then (lift (new_LCAInput ds ms)) (staticLCA p) = (Inl ValidationError, [])"
proof -
  have "\<not> is_method_tuple m"
  proof
    assume "is_method_tuple m"
    then obtain a b c where m: "m = PTuple (map PStr [a, b, c])"
      by (auto simp: is_method_tuple_iff)
    from assms(2) show False
    proof
      assume "\<forall>ss. m \<noteq> PTuple (map PStr ss)"
      then show False using m by blast
    next
      assume "\<exists>ss. m = PTuple (map PStr ss) \<and> length ss \<noteq> 3"
      then obtain ss where ss: "m = PTuple (map PStr ss)" and l: "length ss \<noteq> 3" by blast
      from m ss have "map PStr ss = map PStr [a, b, c]" by simp
      then have "length (map PStr ss) = length (map PStr [a, b, c])" by (rule arg_cong)
      then show False using l by simp
    qed
  qed
  then have "\<not> list_all is_method_tuple ms" using assms(1) by (auto simp: list_all_iff)
  then show ?thesis by (simp add: new_LCAInput_def and_then_def lift_def)
qed

theorem C6_witness:
  "and_then
     (lift (new_LCAInput [[((''db'', ''P1''), 1)]]
        [PTuple [PStr ''m'', PStr ''cc'', PStr ''a''], PInt 42]))
     (staticLCA scenario) = (Inl ValidationError, [])
   \<and> and_then
     (lift (new_LCAInput [[((''db'', ''P1''), 1)]]
        [PTuple [PStr ''m'', PInt 1, PStr ''a''], PTuple [PStr ''m'', PStr ''cc'', PStr ''a'']]))
     (staticLCA scenario) = (Inl ValidationError, [])
   \<and> and_then
     (lift (new_LCAInput [[((''db'', ''P1''), 1)]]
        [PTuple [PStr ''m'', PStr ''cc'', PStr ''a''], PTuple [PStr ''m'', PStr ''cc'']]))
     (staticLCA scenario) = (Inl ValidationError, [])"
proof -
  have m1: "PInt 42 \<in> set [PTuple [PStr ''m'', PStr ''cc'', PStr ''a''], PInt 42]" by simp
  have h1: "(\<forall>ss. PInt 42 \<noteq> PTuple (map PStr ss)) \<or>
            (\<exists>ss. PInt 42 = PTuple (map PStr ss) \<and> length ss \<noteq> 3)" by simp
  have m2: "PTuple [PStr ''m'', PInt 1, PStr ''a''] \<in>
            set [PTuple [PStr ''m'', PInt 1, PStr ''a''], PTuple [PStr ''m'', PStr ''cc'', PStr ''a'']]"
    by simp
  have h2: "(\<forall>ss. PTuple [PStr ''m'', PInt 1, PStr ''a''] \<noteq> PTuple (map PStr ss)) \<or>
            (\<exists>ss. PTuple [PStr ''m'', PInt 1, PStr ''a''] = PTuple (map PStr ss) \<and> length ss \<noteq> 3)"
  proof -
    have "PTuple [PStr ''m'', PInt 1, PStr ''a''] \<noteq> PTuple (map PStr ss)" for ss
    proof
      assume "PTuple [PStr ''m'', PInt 1, PStr ''a''] = PTuple (map PStr ss)"
      then have "PInt 1 \<in> set (map PStr ss)" by (metis list.set_intros(1,2) pyval.inject(3))
      then show False by auto
    qed
    then show ?thesis by blast
  qed
  have m3: "PTuple [PStr ''m'', PStr ''cc''] \<in>
            set [PTuple [PStr ''m'', PStr ''cc'', PStr ''a''], PTuple [PStr ''m'', PStr ''cc'']]"
    by simp
  have h3: "(\<forall>ss. PTuple [PStr ''m'', PStr ''cc''] \<noteq> PTuple (map PStr ss)) \<or>
            (\<exists>ss. PTuple [PStr ''m'', PStr ''cc''] = PTuple (map PStr ss) \<and> length ss \<noteq> 3)"
  proof -
    have "\<exists>ss. PTuple [PStr ''m'', PStr ''cc''] = PTuple (map PStr ss) \<and> length ss \<noteq> 3"
      by (rule exI [of _ "[''m'', ''cc'']"]) simp
    then show ?thesis by (rule disjI2)
  qed
  show ?thesis
    using C6_malformed_method_rejected_at_construction [OF m1 h1, of "[[((''db'', ''P1''), 1)]]" scenario]
          C6_malformed_method_rejected_at_construction [OF m2 h2, of "[[((''db'', ''P1''), 1)]]" scenario]
          C6_malformed_method_rejected_at_construction [OF m3 h3, of "[[((''db'', ''P1''), 1)]]" scenario]
    by simp
qed

end
